theory Spec2Isabelle
  imports Complex_Main
begin

section \<open>JavaScript numbers\<close>

text \<open>
  \<^verbatim>\<open>Transaction.js\<close> computes with JavaScript numbers in two places where the value
  is not an integer: \<^verbatim>\<open>Math.floor(gas * this.config.GAS_LIMIT_MULTIPLIER)\<close> and
  \<^verbatim>\<open>Math.floor(lastBlock.gasLimit.toNumber() * 0.95)\<close>. A finite JavaScript number is
  a rational, so it is modelled as a \<open>real\<close>, and the product of two numbers is the
  exact product rounded to the nearest binary64 value, ties to even, as IEEE 754
  prescribes. The rounding below covers the normal and the subnormal range; numbers
  of magnitude \<open>2 ^ 1024\<close> and more (JavaScript's \<open>Infinity\<close>) are outside the model.
  Counts (gas, nonces, chain ids, prices in wei) are integers and are modelled as
  \<open>int\<close>.
\<close>

fun bitLength :: "nat \<Rightarrow> nat" where
  "bitLength n = (if n = 0 then 0 else Suc (bitLength (n div 2)))"

declare bitLength.simps [simp del]

definition pow2 :: "int \<Rightarrow> real" where
  "pow2 e = (if 0 \<le> e then 2 ^ nat e else 1 / 2 ^ nat (- e))"

text \<open>The binary exponent of a positive number: \<open>pow2 (ilog2 x) \<le> x < pow2 (ilog2 x + 1)\<close>.\<close>

definition ilog2 :: "real \<Rightarrow> int" where
  "ilog2 x = (if 1 \<le> x then int (bitLength (nat \<lfloor>x\<rfloor>)) - 1
              else - int (bitLength (nat (\<lceil>1 / x\<rceil> - 1))))"

definition round_half_even :: "real \<Rightarrow> int" where
  "round_half_even x =
     (let f = \<lfloor>x\<rfloor>; d = x - of_int f
      in if d < 1 / 2 then f else if 1 / 2 < d then f + 1 else if even f then f else f + 1)"

definition binary64 :: "real \<Rightarrow> real" where
  "binary64 x =
     (if x = 0 then 0
      else let e = max (ilog2 \<bar>x\<bar>) (- 1022); ulp = pow2 (e - 52)
           in of_int (round_half_even (x / ulp)) * ulp)"

text \<open>JavaScript's \<^verbatim>\<open>a * b\<close> on numbers, and \<^verbatim>\<open>Math.floor\<close>.\<close>

definition js_times :: "real \<Rightarrow> real \<Rightarrow> real" where
  "js_times a b = binary64 (a * b)"

definition Math_floor :: "real \<Rightarrow> int" where
  "Math_floor x = \<lfloor>x\<rfloor>"

text \<open>
  A field that holds a number or is \<^verbatim>\<open>undefined\<close> is an \<open>int option\<close>. \<^verbatim>\<open>!v\<close> is true
  for \<^verbatim>\<open>undefined\<close> and for \<open>0\<close>. \<^verbatim>\<open>NaN\<close> (what \<^verbatim>\<open>Math.min\<close> and \<^verbatim>\<open>Math.max\<close> return on
  \<^verbatim>\<open>undefined\<close>) is not a usable number either and is falsy too; it is represented by
  \<open>None\<close> as well. A gas limit or a gas price that the caller supplies is taken
  to be a number: a caller who supplies the price 0 as the string \<^verbatim>\<open>'0x00'\<close>, which is
  truthy in JavaScript, is outside the model.
\<close>

definition falsy :: "int option \<Rightarrow> bool" where
  "falsy v = (v = None \<or> v = Some 0)"

definition Math_min :: "int \<Rightarrow> int option \<Rightarrow> int option" where
  "Math_min a b = (case b of None \<Rightarrow> None | Some b' \<Rightarrow> Some (min a b'))"

definition Math_max :: "int option \<Rightarrow> int \<Rightarrow> int option" where
  "Math_max a b = (case a of None \<Rightarrow> None | Some a' \<Rightarrow> Some (max a' b))"

section \<open>Big numbers and units\<close>

text \<open>
  An \<^verbatim>\<open>ethers.BigNumber\<close> is an \<open>int\<close>; \<^verbatim>\<open>mul\<close> and \<^verbatim>\<open>add\<close> are exact and \<^verbatim>\<open>div\<close>
  truncates towards zero. A gas price field is modelled by its value in wei, whatever
  its representation (hex string or number). \<^verbatim>\<open>BigNumber.from\<close> refuses a JavaScript
  number of \<open>2 ^ 53 - 1\<close> or more, which the model of \<^verbatim>\<open>replace\<close> does not do; the
  statement about resubmission carries that bound (\<open>price_readable\<close>). The configured \<^verbatim>\<open>MAX_GAS_PRICE\<close> and
  \<^verbatim>\<open>MIN_GWEI_BUMP\<close> are whole numbers of gwei, which
  \<^verbatim>\<open>parseUnits(x.toString(), 'gwei')\<close> turns into wei, and the configured
  \<^verbatim>\<open>GAS_BUMP_PERCENTAGE\<close> is an integer.
\<close>

definition BigNumber_div :: "int \<Rightarrow> int \<Rightarrow> int" where
  "BigNumber_div a b = sgn a * sgn b * (\<bar>a\<bar> div \<bar>b\<bar>)"

definition parseUnits_gwei :: "int \<Rightarrow> int" where
  "parseUnits_gwei x = x * 10 ^ 9"

text \<open>
  Modelled from the spec: the helpers \<^verbatim>\<open>min\<close> and \<^verbatim>\<open>max\<close> that \<^verbatim>\<open>Transaction.js\<close>
  imports from \<^verbatim>\<open>./utils\<close>, a file that is not among the sources. The spec uses them
  as the lesser and the greater of two prices
  (\<^verbatim>\<open>candidate = max(P * (100 + K) / 100, P + B)\<close>, \<^verbatim>\<open>newPrice = min(candidate, M)\<close>).
\<close>

definition utils_min :: "int \<Rightarrow> int \<Rightarrow> int" where
  "utils_min a b = (if a < b then a else b)"

definition utils_max :: "int \<Rightarrow> int \<Rightarrow> int" where
  "utils_max a b = (if a < b then b else a)"

section \<open>Data model\<close>

type_synonym address = string
type_synonym hash = string
type_synonym receipt = string

text \<open>
  The request object \<^verbatim>\<open>this.tx\<close>. A field the object does not have is \<open>None\<close>.
\<close>

record tx_request =
  tx_from :: "address option"
  tx_to :: "address option"
  tx_value :: "int option"
  tx_data :: "string option"
  gasLimit :: "int option"
  gasPrice :: "int option"
  nonce :: "int option"
  chainId :: "int option"

record config =
  GAS_LIMIT_MULTIPLIER :: real
  BLOCK_GAS_LIMIT :: "int option"
  ESTIMATE_GAS :: bool
  MAX_GAS_PRICE :: int
  MIN_GWEI_BUMP :: int
  GAS_BUMP_PERCENTAGE :: int

text \<open>
  The manager, as far as \<^verbatim>\<open>Transaction.js\<close> reads and writes it: \<^verbatim>\<open>manager.address\<close>,
  \<^verbatim>\<open>manager.config\<close>, \<^verbatim>\<open>manager._nonce\<close> and \<^verbatim>\<open>manager._mutex\<close> (held or free).
  \<^verbatim>\<open>Object.assign(this, manager)\<close> gives every transaction a reference to the same
  \<^verbatim>\<open>config\<close> object, so a write to \<^verbatim>\<open>this.config\<close> is a write to the manager's
  configuration; the model keeps it in the manager only.
\<close>

record manager =
  address :: address
  config :: config
  m_nonce :: "int option"
  mutex_held :: bool

datatype error = AlreadyExecuted | NetworkError string | BigNumberFault

text \<open>The promise behind \<^verbatim>\<open>send\<close>: pending, resolved with \<^verbatim>\<open>this.receipt\<close>, or rejected.\<close>

datatype promise = Pending | Resolved "receipt option" | Rejected error

record transaction =
  tx :: tx_request
  executed :: bool
  retries :: nat
  currentTxHash :: "hash option"
  hashes :: "hash list"
  submitTimestamp :: "nat option"
  receipt :: "receipt option"
  promise :: promise

text \<open>
  What the outside sees, in order: the gate being taken and released, every call to
  the network collaborator, and every \<^verbatim>\<open>transactionHash\<close> event the emitter emits.
  Console output is not recorded.
\<close>

datatype event =
    MutexAcquire
  | MutexRelease
  | GetBlock
  | EstimateGas tx_request
  | GasPriceOracle
  | GetTransactionCount address
  | GetChainId
  | SendTransaction tx_request
  | GetHash
  | WaitReceipt
  | TransactionHash hash

text \<open>
  The network collaborator \<^verbatim>\<open>this._kit\<close>: what each call answers, \<open>Inl\<close> when it throws.
  \<^verbatim>\<open>getBlock\<close> answers \<^verbatim>\<open>lastBlock.gasLimit.toNumber()\<close> of the latest block.
  \<^verbatim>\<open>getGasPrice wiggle\<close> stands for the whole of \<^verbatim>\<open>_getGasPrice(wiggle)\<close>: the registry
  lookup, the oracle contract call and the conversion of the result to wei.
  \<^verbatim>\<open>clock\<close> is what \<^verbatim>\<open>Date.now()\<close> reads.
\<close>

record signed_tx =
  getHash :: "error + hash"
  waitReceipt :: "error + receipt"

record net =
  getBlock :: "error + int"
  estimateGas :: "tx_request \<Rightarrow> error + int"
  getGasPrice :: "real \<Rightarrow> error + int"
  getTransactionCount :: "address \<Rightarrow> error + int"
  getChainId :: "error + int"
  sendTransaction :: "tx_request \<Rightarrow> error + signed_tx"
  clock :: nat

record world =
  mgr :: manager
  txn :: transaction
  events :: "event list"

definition emit :: "event \<Rightarrow> world \<Rightarrow> world" where
  "emit ev w = w\<lparr>events := events w @ [ev]\<rparr>"

text \<open>
  An asynchronous procedure ends normally (\<open>None\<close>) or throws (\<open>Some e\<close>); either way
  the writes it made stay. \<open>andThen\<close> is \<^verbatim>\<open>await\<close> followed by the rest of the body.
\<close>

definition andThen ::
  "error option \<times> world \<Rightarrow> (world \<Rightarrow> error option \<times> world) \<Rightarrow> error option \<times> world" where
  "andThen r f = (case r of (None, w) \<Rightarrow> f w | (Some e, w) \<Rightarrow> (Some e, w))"

section \<open>The constructor\<close>

text \<open>
  \<^verbatim>\<open>
  constructor(tx, manager) {
    Object.assign(this, manager)
    this.manager = manager
    this.tx = {...tx, from: manager.address}
    this._promise = PromiEvent()
    this._emitter = this._promise.eventEmitter
    this.executed = false
    this.retries = 0
    this.currentTxHash = null
    this.hashes = []
  }\<close>
\<close>

definition new_Transaction :: "tx_request \<Rightarrow> manager \<Rightarrow> transaction" where
  "new_Transaction req m =
     \<lparr>tx = req\<lparr>tx_from := Some (address m)\<rparr>, executed = False, retries = 0,
      currentTxHash = None, hashes = [], submitTimestamp = None, receipt = None,
      promise = Pending\<rparr>"

section \<open>Gas price escalation\<close>

text \<open>
  \<^verbatim>\<open>
  _increaseGasPrice() {
    const maxGasPrice = parseUnits(this.config.MAX_GAS_PRICE.toString(), 'gwei')
    const minGweiBump = parseUnits(this.config.MIN_GWEI_BUMP.toString(), 'gwei')
    const oldGasPrice = BigNumber.from(this.tx.gasPrice)
    if (oldGasPrice.gte(maxGasPrice)) {
      console.log('Already at max gas price, not bumping')
      return false
    }
    const newGasPrice = max(
      oldGasPrice.mul(100 + this.config.GAS_BUMP_PERCENTAGE).div(100),
      oldGasPrice.add(minGweiBump),
    )
    this.tx.gasPrice = min(newGasPrice, maxGasPrice).toHexString()
    console.log(`Increasing gas price to ${formatUnits(this.tx.gasPrice, 'gwei')} gwei`)
    return true
  }\<close>
  \<^verbatim>\<open>BigNumber.from\<close> throws when the request has no usable gas price.
\<close>

definition set_gasPrice :: "int option \<Rightarrow> world \<Rightarrow> world" where
  "set_gasPrice p w = w\<lparr>txn := (txn w)\<lparr>tx := (tx (txn w))\<lparr>gasPrice := p\<rparr>\<rparr>\<rparr>"

definition increaseGasPrice :: "world \<Rightarrow> (error + bool) \<times> world" where
  "increaseGasPrice w =
     (let maxGasPrice = parseUnits_gwei (MAX_GAS_PRICE (config (mgr w)));
          minGweiBump = parseUnits_gwei (MIN_GWEI_BUMP (config (mgr w)))
      in case gasPrice (tx (txn w)) of
           None \<Rightarrow> (Inl BigNumberFault, w)
         | Some oldGasPrice \<Rightarrow>
             if maxGasPrice \<le> oldGasPrice then (Inr False, w)
             else
               let newGasPrice =
                     utils_max
                       (BigNumber_div
                          (oldGasPrice * (100 + GAS_BUMP_PERCENTAGE (config (mgr w)))) 100)
                       (oldGasPrice + minGweiBump)
               in (Inr True, set_gasPrice (Some (utils_min newGasPrice maxGasPrice)) w))"

section \<open>Preparation\<close>

text \<open>
  \<^verbatim>\<open>
  async _prepare() {
    if (!this.config.BLOCK_GAS_LIMIT) {
      const lastBlock = await this._kit.web3.eth.getBlock('latest')
      this.config.BLOCK_GAS_LIMIT = Math.floor(lastBlock.gasLimit.toNumber() * 0.95)
    }
    if (!this.tx.gasLimit || this.config.ESTIMATE_GAS) {
      const gas = await this._kit.web3.eth.estimateGas(this.tx)
      if (!this.tx.gasLimit) {
        const gasLimit = Math.floor(gas * this.config.GAS_LIMIT_MULTIPLIER)
        this.tx.gasLimit = Math.min(gasLimit, this.config.BLOCK_GAS_LIMIT)
      }
    }
    if (!this.tx.gasPrice) {
      const fastGasPrice = BigNumber.from(await this._getGasPrice(1.3))
      const maxGasPrice = parseUnits(this.config.MAX_GAS_PRICE.toString(), 'gwei')
      this.tx.gasPrice = min(fastGasPrice, maxGasPrice).toHexString()
    }
    if (!this.manager._nonce) {
      this.manager._nonce = await this._getLastNonce()
    }
    this.tx.nonce = this.manager._nonce
    this.tx.chainId = await this._kit.web3.eth.getChainId()
  }
  _getLastNonce() {
    return this._kit.web3.eth.getTransactionCount(this.address)
  }\<close>
  One definition per statement of the body, composed in the order of the source. The
  private methods keep their names without the leading underscore; \<^verbatim>\<open>_send\<close> is
  \<open>send'\<close>, since \<open>send\<close> is the public method.
\<close>

definition set_tx :: "tx_request \<Rightarrow> world \<Rightarrow> world" where
  "set_tx req w = w\<lparr>txn := (txn w)\<lparr>tx := req\<rparr>\<rparr>"

definition set_m_nonce :: "int option \<Rightarrow> world \<Rightarrow> world" where
  "set_m_nonce k w = w\<lparr>mgr := (mgr w)\<lparr>m_nonce := k\<rparr>\<rparr>"

definition set_BLOCK_GAS_LIMIT :: "int option \<Rightarrow> world \<Rightarrow> world" where
  "set_BLOCK_GAS_LIMIT b w =
     w\<lparr>mgr := (mgr w)\<lparr>config := (config (mgr w))\<lparr>BLOCK_GAS_LIMIT := b\<rparr>\<rparr>\<rparr>"

definition prepare_blockGasLimit :: "net \<Rightarrow> world \<Rightarrow> error option \<times> world" where
  "prepare_blockGasLimit n w =
     (if falsy (BLOCK_GAS_LIMIT (config (mgr w))) then
        (case getBlock n of
           Inl e \<Rightarrow> (Some e, emit GetBlock w)
         | Inr blockLimit \<Rightarrow>
             (None,
              set_BLOCK_GAS_LIMIT
                (Some (Math_floor (js_times (of_int blockLimit) (binary64 (19 / 20)))))
                (emit GetBlock w)))
      else (None, w))"

definition scaled_gasLimit :: "int \<Rightarrow> world \<Rightarrow> int option" where
  "scaled_gasLimit gas w =
     Math_min (Math_floor (js_times (of_int gas) (GAS_LIMIT_MULTIPLIER (config (mgr w)))))
       (BLOCK_GAS_LIMIT (config (mgr w)))"

definition prepare_gasLimit :: "net \<Rightarrow> world \<Rightarrow> error option \<times> world" where
  "prepare_gasLimit n w =
     (if falsy (gasLimit (tx (txn w))) \<or> ESTIMATE_GAS (config (mgr w)) then
        (case estimateGas n (tx (txn w)) of
           Inl e \<Rightarrow> (Some e, emit (EstimateGas (tx (txn w))) w)
         | Inr gas \<Rightarrow>
             if falsy (gasLimit (tx (txn w))) then
               (None,
                set_tx ((tx (txn w))\<lparr>gasLimit := scaled_gasLimit gas w\<rparr>)
                  (emit (EstimateGas (tx (txn w))) w))
             else (None, emit (EstimateGas (tx (txn w))) w))
      else (None, w))"

definition prepare_gasPrice :: "net \<Rightarrow> world \<Rightarrow> error option \<times> world" where
  "prepare_gasPrice n w =
     (if falsy (gasPrice (tx (txn w))) then
        (case getGasPrice n (binary64 (13 / 10)) of
           Inl e \<Rightarrow> (Some e, emit GasPriceOracle w)
         | Inr fastGasPrice \<Rightarrow>
             (None,
              set_gasPrice
                (Some (utils_min fastGasPrice
                         (parseUnits_gwei (MAX_GAS_PRICE (config (mgr w))))))
                (emit GasPriceOracle w)))
      else (None, w))"

definition assign_nonce :: "world \<Rightarrow> world" where
  "assign_nonce w = set_tx ((tx (txn w))\<lparr>nonce := m_nonce (mgr w)\<rparr>) w"

definition prepare_nonce :: "net \<Rightarrow> world \<Rightarrow> error option \<times> world" where
  "prepare_nonce n w =
     (if falsy (m_nonce (mgr w)) then
        (case getTransactionCount n (address (mgr w)) of
           Inl e \<Rightarrow> (Some e, emit (GetTransactionCount (address (mgr w))) w)
         | Inr c \<Rightarrow>
             (None,
              assign_nonce
                (set_m_nonce (Some c) (emit (GetTransactionCount (address (mgr w))) w))))
      else (None, assign_nonce w))"

definition prepare_chainId :: "net \<Rightarrow> world \<Rightarrow> error option \<times> world" where
  "prepare_chainId n w =
     (case getChainId n of
        Inl e \<Rightarrow> (Some e, emit GetChainId w)
      | Inr c \<Rightarrow> (None, set_tx ((tx (txn w))\<lparr>chainId := Some c\<rparr>) (emit GetChainId w)))"

definition prepare :: "net \<Rightarrow> world \<Rightarrow> error option \<times> world" where
  "prepare n w =
     andThen
       (andThen
          (andThen (andThen (prepare_blockGasLimit n w) (prepare_gasLimit n))
             (prepare_gasPrice n))
          (prepare_nonce n))
       (prepare_chainId n)"

section \<open>Submission\<close>

text \<open>
  \<^verbatim>\<open>
  async _send() {
    // todo throw is we attempt to send a tx that attempts to replace already mined tx
    const signedTx = await this._kit.sendTransaction(this.tx)
    this.submitTimestamp = Date.now()
    const txHash = await signedTx.getHash()
    this.hashes.push(txHash)
    this.receipt = await signedTx.waitReceipt()

    this._emitter.emit('transactionHash', txHash)
    console.log(`Broadcasted transaction ${txHash}`)
  }\<close>
\<close>

definition send' :: "net \<Rightarrow> world \<Rightarrow> error option \<times> world" where
  "send' n w =
     (let w1 = emit (SendTransaction (tx (txn w))) w
      in case sendTransaction n (tx (txn w)) of
           Inl e \<Rightarrow> (Some e, w1)
         | Inr signedTx \<Rightarrow>
             let w2 = emit GetHash (w1\<lparr>txn := (txn w1)\<lparr>submitTimestamp := Some (clock n)\<rparr>\<rparr>)
             in case getHash signedTx of
                  Inl e \<Rightarrow> (Some e, w2)
                | Inr txHash \<Rightarrow>
                    let w3 = emit WaitReceipt
                               (w2\<lparr>txn := (txn w2)\<lparr>hashes := hashes (txn w2) @ [txHash]\<rparr>\<rparr>)
                    in case waitReceipt signedTx of
                         Inl e \<Rightarrow> (Some e, w3)
                       | Inr r \<Rightarrow>
                           (None,
                            emit (TransactionHash txHash)
                              (w3\<lparr>txn := (txn w3)\<lparr>receipt := Some r\<rparr>\<rparr>)))"

section \<open>Execution under the gate\<close>

text \<open>
  \<^verbatim>\<open>
  async _execute() {
    const mutexRelease = await this.manager._mutex.acquire()
    try {
      await this._prepare()
      await this._send()
      // we could have bumped nonce during execution, so get the latest one + 1
      this.manager._nonce = this.tx.nonce + 1
      return this.receipt
    } finally {
      mutexRelease()
    }
  }\<close>
  \<^verbatim>\<open>acquire()\<close> resolves only once the gate is free: called while the gate is held, the
  procedure does not get past its first line, which is the value \<open>None\<close>. The model
  runs one procedure at a time from the moment it takes the gate to its end; the
  interleaving of several pending procedures is not modelled.
\<close>

definition advanceNonce :: "world \<Rightarrow> error option \<times> world" where
  "advanceNonce w = (None, set_m_nonce (map_option (\<lambda>k. k + 1) (nonce (tx (txn w)))) w)"

definition set_mutex :: "bool \<Rightarrow> world \<Rightarrow> world" where
  "set_mutex b w = w\<lparr>mgr := (mgr w)\<lparr>mutex_held := b\<rparr>\<rparr>"

definition execute :: "net \<Rightarrow> world \<Rightarrow> ((error + receipt option) \<times> world) option" where
  "execute n w =
     (if mutex_held (mgr w) then None
      else
        let w1 = emit MutexAcquire (set_mutex True w);
            body = andThen (andThen (prepare n w1) (send' n)) advanceNonce;
            w3 = emit MutexRelease (set_mutex False (snd body))
        in Some (case fst body of None \<Rightarrow> Inr (receipt (txn w3)) | Some e \<Rightarrow> Inl e, w3))"

section \<open>The public operations\<close>

text \<open>
  \<^verbatim>\<open>
  /**
   * Submits the transaction to Ethereum network. Resolves when tx gets enough confirmations.
   * Emits progress events.
   */
  send() {
    if (this.executed) {
      throw new Error('The transaction was already executed')
    }
    this.executed = true
    this._execute().then(this._promise.resolve).catch(this._promise.reject)
    return this._emitter
  }\<close>
  The result is \<open>Inl\<close> when \<^verbatim>\<open>send\<close> throws and \<open>Inr ()\<close> when it returns the emitter; the
  outcome of \<^verbatim>\<open>_execute\<close> settles the promise.
\<close>

definition set_promise :: "promise \<Rightarrow> world \<Rightarrow> world" where
  "set_promise p w = w\<lparr>txn := (txn w)\<lparr>promise := p\<rparr>\<rparr>"

definition send :: "net \<Rightarrow> world \<Rightarrow> (error + unit) \<times> world" where
  "send n w =
     (if executed (txn w) then (Inl AlreadyExecuted, w)
      else
        let w1 = w\<lparr>txn := (txn w)\<lparr>executed := True\<rparr>\<rparr>
        in case execute n w1 of
             None \<Rightarrow> (Inr (), w1)
           | Some (Inl e, w2) \<Rightarrow> (Inr (), set_promise (Rejected e) w2)
           | Some (Inr r, w2) \<Rightarrow> (Inr (), set_promise (Resolved r) w2))"

text \<open>
  \<^verbatim>\<open>
  async replace(tx) {
    // todo throw error if the current transaction is mined already
    console.log('Replacing current transaction')
    if (!this.executed) {
      // Tx was not executed yet, just replace it
      this.tx = {...tx}
      return
    }
    if (!tx.gasLimit) {
      tx.gasLimit = await this._kit.web3.eth.estimateGas(tx)
      tx.gasLimit = Math.floor(tx.gasLimit * this.config.GAS_LIMIT_MULTIPLIER)
      tx.gasLimit = Math.min(tx.gasLimit, this.config.BLOCK_GAS_LIMIT)
    }
    tx.nonce = this.tx.nonce // can be different from `this.manager._nonce`
    tx.gasPrice = Math.max(this.tx.gasPrice, tx.gasPrice || 0)

    this.tx = {...tx}
    this._increaseGasPrice()
    await this._send()
  }\<close>
\<close>

definition replace_gasLimit :: "net \<Rightarrow> tx_request \<Rightarrow> world \<Rightarrow> (error + tx_request) \<times> world" where
  "replace_gasLimit n req w =
     (if falsy (gasLimit req) then
        (case estimateGas n req of
           Inl e \<Rightarrow> (Inl e, emit (EstimateGas req) w)
         | Inr gas \<Rightarrow>
             (Inr (req\<lparr>gasLimit := scaled_gasLimit gas w\<rparr>), emit (EstimateGas req) w))
      else (Inr req, w))"

definition replace :: "net \<Rightarrow> tx_request \<Rightarrow> world \<Rightarrow> error option \<times> world" where
  "replace n req w =
     (if \<not> executed (txn w) then (None, set_tx req w)
      else
        case replace_gasLimit n req w of
          (Inl e, w1) \<Rightarrow> (Some e, w1)
        | (Inr req1, w1) \<Rightarrow>
            let req2 = req1\<lparr>nonce := nonce (tx (txn w1))\<rparr>;
                req3 = req2\<lparr>gasPrice :=
                         Math_max (gasPrice (tx (txn w1)))
                           (case gasPrice req2 of None \<Rightarrow> 0 | Some p \<Rightarrow> p)\<rparr>
            in case increaseGasPrice (set_tx req3 w1) of
                 (Inl e, w2) \<Rightarrow> (Some e, w2)
               | (Inr bumped, w2) \<Rightarrow> send' n w2)"

text \<open>
  \<^verbatim>\<open>
  cancel() {
    console.log('Canceling the transaction')
    return this.replace({
      from: this.address,
      to: this.address,
      value: 0,
      gasLimit: 21000,
    })
  }\<close>
\<close>

definition cancel :: "net \<Rightarrow> world \<Rightarrow> error option \<times> world" where
  "cancel n w =
     replace n
       \<lparr>tx_from = Some (address (mgr w)), tx_to = Some (address (mgr w)),
        tx_value = Some 0, tx_data = None, gasLimit = Some 21000, gasPrice = None,
        nonce = None, chainId = None\<rparr>
       w"

text \<open>
  A history of \<^verbatim>\<open>replace\<close> and \<^verbatim>\<open>cancel\<close> calls on one transaction, each against the
  network as it answers at that time.
\<close>

datatype call = Replace tx_request | Cancel

fun perform :: "net \<times> call \<Rightarrow> world \<Rightarrow> error option \<times> world" where
  "perform (n, Replace req) w = replace n req w"
| "perform (n, Cancel) w = cancel n w"

fun run_calls :: "(net \<times> call) list \<Rightarrow> world \<Rightarrow> world" where
  "run_calls [] w = w"
| "run_calls (c # cs) w = run_calls cs (snd (perform c w))"

text \<open>
  The requests handed to \<^verbatim>\<open>sendTransaction\<close>, in order. \<open>resubmitted k v v'\<close>: from \<open>v\<close>
  to \<open>v'\<close> exactly one request was handed to \<^verbatim>\<open>sendTransaction\<close>, and it held the nonce
  \<open>k\<close>.
\<close>

fun broadcasts :: "event list \<Rightarrow> tx_request list" where
  "broadcasts [] = []"
| "broadcasts (SendTransaction r # evs) = r # broadcasts evs"
| "broadcasts (ev # evs) = broadcasts evs"

definition resubmitted :: "int \<Rightarrow> world \<Rightarrow> world \<Rightarrow> bool" where
  "resubmitted k v v' =
     (\<exists>evs. events v' = events v @ evs \<and> map nonce (broadcasts evs) = [Some k])"

text \<open>
  After \<^verbatim>\<open>Math.max\<close> the price of a replacement is a JavaScript number, and
  \<^verbatim>\<open>BigNumber.from\<close> accepts a number only below \<open>2 ^ 53 - 1\<close>. \<open>price_readable\<close> says
  that the pending request has a price and that it and the price offered with the
  replacement (0 when none is offered) are in that range. \<open>reaches_broadcast\<close> is
  the condition under which a \<^verbatim>\<open>replace\<close> or \<^verbatim>\<open>cancel\<close> call on an executed transaction
  gets as far as \<^verbatim>\<open>_send\<close>: the gas limit is given or the estimate succeeds, and the
  price is readable.
\<close>

definition safe_price :: "int \<Rightarrow> bool" where
  "safe_price p = (0 \<le> p \<and> p < 2 ^ 53 - 1)"

definition price_readable :: "int option \<Rightarrow> world \<Rightarrow> bool" where
  "price_readable offered w =
     (case gasPrice (tx (txn w)) of
        None \<Rightarrow> False
      | Some p \<Rightarrow> safe_price p \<and> safe_price (case offered of None \<Rightarrow> 0 | Some x \<Rightarrow> x))"

fun reaches_broadcast :: "net \<times> call \<Rightarrow> world \<Rightarrow> bool" where
  "reaches_broadcast (n, Replace req) w =
     ((if falsy (gasLimit req)
       then (case estimateGas n req of Inl e \<Rightarrow> False | Inr gas \<Rightarrow> True) else True)
      \<and> price_readable (gasPrice req) w)"
| "reaches_broadcast (n, Cancel) w = price_readable None w"

section \<open>What a step inside the gate leaves alone\<close>

text \<open>
  \<open>quiet evs\<close>: the events \<open>evs\<close> neither take nor release the gate.
  \<open>inside w w'\<close>: from \<open>w\<close> to \<open>w'\<close> the gate, the account address and the
  \<^verbatim>\<open>executed\<close> flag are as they were, and the events added are quiet.
\<close>

definition quiet :: "event list \<Rightarrow> bool" where
  "quiet evs = (MutexAcquire \<notin> set evs \<and> MutexRelease \<notin> set evs)"

definition inside :: "world \<Rightarrow> world \<Rightarrow> bool" where
  "inside w w' =
     (mutex_held (mgr w') = mutex_held (mgr w)
      \<and> address (mgr w') = address (mgr w)
      \<and> executed (txn w') = executed (txn w)
      \<and> (\<exists>evs. events w' = events w @ evs \<and> quiet evs))"

text \<open>The number of transaction-count queries among the events.\<close>

fun count_queries :: "event list \<Rightarrow> nat" where
  "count_queries [] = 0"
| "count_queries (GetTransactionCount a # evs) = Suc (count_queries evs)"
| "count_queries (ev # evs) = count_queries evs"


section \<open>Concrete scenarios\<close>

text \<open>
  A manager for the account \<open>0xSender\<close> with a bump of 10 percent, and a network
  that answers every call. Prices are given in gwei.
\<close>

definition demo_config :: "int \<Rightarrow> int \<Rightarrow> int \<Rightarrow> config" where
  "demo_config K B M =
     \<lparr>GAS_LIMIT_MULTIPLIER = binary64 (6 / 5), BLOCK_GAS_LIMIT = Some 60000,
      ESTIMATE_GAS = False, MAX_GAS_PRICE = M, MIN_GWEI_BUMP = B, GAS_BUMP_PERCENTAGE = K\<rparr>"

definition demo_manager :: "int option \<Rightarrow> manager" where
  "demo_manager k =
     \<lparr>address = ''0xSender'', config = demo_config 10 5 1000, m_nonce = k,
      mutex_held = False\<rparr>"

definition demo_request :: tx_request where
  "demo_request =
     \<lparr>tx_from = None, tx_to = Some ''0xDest'', tx_value = Some 1, tx_data = None,
      gasLimit = None, gasPrice = None, nonce = None, chainId = None\<rparr>"

definition demo_signed :: "error + receipt \<Rightarrow> signed_tx" where
  "demo_signed r = \<lparr>getHash = Inr ''0xA1'', waitReceipt = r\<rparr>"

definition demo_sent :: "error + signed_tx" where
  "demo_sent = Inr (demo_signed (Inr ''receipt of 0xA1''))"

definition demo_net :: "int \<Rightarrow> int \<Rightarrow> error + signed_tx \<Rightarrow> net" where
  "demo_net gas count sent =
     \<lparr>getBlock = Inr 8000000, estimateGas = (\<lambda>req. Inr gas),
      getGasPrice = (\<lambda>wiggle. Inr 650000000),
      getTransactionCount = (\<lambda>a. Inr count), getChainId = Inr 42220,
      sendTransaction = (\<lambda>req. sent), clock = 1000\<rparr>"

text \<open>A transaction just created, on a manager whose nonce is \<open>k\<close>.\<close>

definition fresh_world :: "int option \<Rightarrow> world" where
  "fresh_world k =
     \<lparr>mgr = demo_manager k, txn = new_Transaction demo_request (demo_manager k),
      events = []\<rparr>"

text \<open>
  A transaction that was sent under nonce 7 at a price of \<open>P\<close> gwei and is not yet
  confirmed, under a configuration with bump percentage \<open>K\<close>, minimum bump \<open>B\<close> gwei
  and maximum price \<open>M\<close> gwei.
\<close>

definition pending_world :: "int \<Rightarrow> int \<Rightarrow> int \<Rightarrow> int \<Rightarrow> world" where
  "pending_world P K B M =
     \<lparr>mgr = \<lparr>address = ''0xSender'', config = demo_config K B M, m_nonce = Some 7,
             mutex_held = False\<rparr>,
      txn = \<lparr>tx = \<lparr>tx_from = Some ''0xSender'', tx_to = Some ''0xDest'', tx_value = Some 1,
                    tx_data = None, gasLimit = Some 21000,
                    gasPrice = Some (parseUnits_gwei P), nonce = Some 7,
                    chainId = Some 42220\<rparr>,
             executed = True, retries = 0, currentTxHash = None, hashes = [''0xA0''],
             submitTimestamp = Some 900, receipt = None, promise = Pending\<rparr>,
      events = []\<rparr>"

text \<open>
  The first transaction of an account that has no transactions yet, sent while the
  network refuses the broadcast; then the next transaction created on that manager,
  with the record of events started afresh.
\<close>

definition after_failed_send :: world where
  "after_failed_send =
     snd (send (demo_net 50000 0 (Inl (NetworkError ''broadcast failed''))) (fresh_world None))"

definition next_transaction :: "world \<Rightarrow> world" where
  "next_transaction w = w\<lparr>txn := new_Transaction demo_request (mgr w), events := []\<rparr>"

section \<open>Basic facts\<close>

lemmas setter_defs =
  emit_def set_tx_def set_gasPrice_def set_m_nonce_def set_BLOCK_GAS_LIMIT_def set_mutex_def
  set_promise_def assign_nonce_def

lemmas demo_defs =
  demo_config_def demo_manager_def demo_request_def demo_signed_def demo_sent_def demo_net_def
  fresh_world_def pending_world_def new_Transaction_def

lemmas model_defs =
  execute_def prepare_def andThen_def prepare_blockGasLimit_def prepare_gasLimit_def
  prepare_gasPrice_def prepare_nonce_def prepare_chainId_def send'_def advanceNonce_def
  scaled_gasLimit_def Math_min_def Math_max_def falsy_def utils_min_def utils_max_def
  parseUnits_gwei_def Let_def



lemma BigNumber_div_nonneg: "0 \<le> a \<Longrightarrow> 0 < b \<Longrightarrow> BigNumber_div a b = a div b"
  by (cases "a = 0") (simp_all add: BigNumber_div_def)

subsection \<open>Rounding to binary64 is rounding to nearest\<close>

text \<open>
  The exponent found by \<open>ilog2\<close> brackets its argument, the rounded value is within
  half a unit in the last place of the exact one, a value that is a multiple of its
  unit in the last place is left as it is, and so is every integer up to \<open>2 ^ 53\<close>:
  on the integers the model computes with, JavaScript's arithmetic is exact.
\<close>

lemma bitLength_bounds:
  "0 < n \<Longrightarrow> 2 ^ (bitLength n - 1) \<le> n \<and> n < 2 ^ bitLength n"
proof (induction n rule: bitLength.induct)
  case (1 n)
  show ?case
  proof (cases "n div 2 = 0")
    case True
    with "1.prems" have "n = 1"
      by (simp add: div_eq_0_iff) 
    then show ?thesis
      by (simp add: bitLength.simps)
  next
    case False
    then have pos: "0 < n div 2" and n0: "n \<noteq> 0"
      by auto
    from "1.IH" [OF n0 pos] have
      ih: "2 ^ (bitLength (n div 2) - 1) \<le> n div 2" "n div 2 < 2 ^ bitLength (n div 2)"
      by simp_all
    have bl: "bitLength n = Suc (bitLength (n div 2))"
      using n0 by (subst bitLength.simps) simp
    have blpos: "0 < bitLength (n div 2)"
      using pos by (subst bitLength.simps) simp
    have "2 * 2 ^ (bitLength (n div 2) - 1) \<le> n"
      using ih(1) by linarith
    moreover have "2 * 2 ^ (bitLength (n div 2) - 1) = (2::nat) ^ bitLength (n div 2)"
      using blpos by (cases "bitLength (n div 2)") simp_all
    moreover have "n < 2 * 2 ^ bitLength (n div 2)"
      using ih(2) by linarith
    ultimately show ?thesis
      by (simp add: bl)
  qed
qed

lemma round_half_even_near: "\<bar>of_int (round_half_even x) - x\<bar> \<le> 1 / 2"
  unfolding round_half_even_def Let_def by (auto; linarith)

lemma round_half_even_of_int: "round_half_even (of_int k) = k"
  by (simp add: round_half_even_def)

lemma bitLength_pos: "0 < n \<Longrightarrow> 0 < bitLength n"
  by (subst bitLength.simps) simp

lemma bitLength_bounds_real:
  assumes "0 < n"
  shows "(2::real) ^ (bitLength n - 1) \<le> real n" and "real n + 1 \<le> 2 ^ bitLength n"
proof -
  from bitLength_bounds [OF assms] have "2 ^ (bitLength n - 1) \<le> n" "n + 1 \<le> 2 ^ bitLength n"
    by simp_all
  then have "real (2 ^ (bitLength n - 1)) \<le> real n" "real (n + 1) \<le> real (2 ^ bitLength n)"
    by (simp_all only: of_nat_le_iff)
  then show "(2::real) ^ (bitLength n - 1) \<le> real n" and "real n + 1 \<le> 2 ^ bitLength n"
    by simp_all
qed

lemma pow2_nonneg: "pow2 (int b) = 2 ^ b"
  by (simp add: pow2_def)

lemma pow2_neg: "pow2 (- int b) = 1 / 2 ^ b"
  by (simp add: pow2_def)

lemma ilog2_bounds:
  assumes "0 < x"
  shows "pow2 (ilog2 x) \<le> x \<and> x < pow2 (ilog2 x + 1)"
proof (cases "1 \<le> x")
  case True
  define m where "m = nat \<lfloor>x\<rfloor>"
  define b where "b = bitLength m"
  have m: "0 < m" "real m \<le> x" "x < real m + 1"
    using True by (simp_all add: m_def)
  from bitLength_bounds_real [OF m(1)]
  have bb: "2 ^ (b - 1) \<le> real m" "real m + 1 \<le> 2 ^ b"
    by (simp_all add: b_def)
  have bpos: "0 < b"
    using m(1) by (simp add: b_def bitLength_pos)
  have il: "ilog2 x = int (b - 1)" "ilog2 x + 1 = int b"
    using True bpos by (simp_all add: ilog2_def m_def b_def)
  have p: "pow2 (ilog2 x) = 2 ^ (b - 1)" "pow2 (ilog2 x + 1) = 2 ^ b"
    by (simp only: il(1) pow2_nonneg, simp only: il(2) pow2_nonneg)
  show ?thesis
    unfolding p using bb m by linarith
next
  case False
  define y where "y = 1 / x"
  define m where "m = nat (\<lceil>y\<rceil> - 1)"
  define b where "b = bitLength m"
  have y1: "1 < y"
    using assms False by (simp add: y_def)
  then have "2 \<le> \<lceil>y\<rceil>"
    by linarith
  then have m: "0 < m" "real m < y" "y \<le> real m + 1"
    by (simp_all add: m_def) linarith+
  from bitLength_bounds_real [OF m(1)]
  have bb: "2 ^ (b - 1) \<le> real m" "real m + 1 \<le> 2 ^ b"
    by (simp_all add: b_def)
  have bpos: "0 < b"
    using m(1) by (simp add: b_def bitLength_pos)
  have il: "ilog2 x = - int b" "ilog2 x + 1 = - int (b - 1)"
    using False bpos by (simp_all add: ilog2_def m_def b_def y_def)
  have x: "x = 1 / y"
    using assms by (simp add: y_def)
  have "y \<le> 2 ^ b"
    using bb(2) m(3) by linarith
  then have lo: "1 / 2 ^ b \<le> 1 / y"
    using y1 by (simp add: frac_le)
  have "2 ^ (b - 1) < y"
    using bb(1) m(2) by linarith
  then have hi: "1 / y < 1 / 2 ^ (b - 1)"
    by (simp add: frac_less2)
  have p: "pow2 (ilog2 x) = 1 / 2 ^ b" "pow2 (ilog2 x + 1) = 1 / 2 ^ (b - 1)"
    by (simp only: il(1) pow2_neg, simp only: il(2) pow2_neg)
  show ?thesis
    unfolding p using lo hi by (simp add: x)
qed

lemma pow2_pos: "0 < pow2 e"
  by (simp add: pow2_def)

lemma binary64_near:
  assumes "x \<noteq> 0"
  shows "\<bar>binary64 x - x\<bar> \<le> pow2 (max (ilog2 \<bar>x\<bar>) (- 1022) - 52) / 2"
proof -
  define u where "u = pow2 (max (ilog2 \<bar>x\<bar>) (- 1022) - 52)"
  have u: "0 < u"
    by (simp add: u_def pow2_pos)
  have b: "binary64 x = of_int (round_half_even (x / u)) * u"
    using assms by (simp add: binary64_def Let_def u_def)
  have "binary64 x - x = (of_int (round_half_even (x / u)) - x / u) * u"
    using u by (simp add: b algebra_simps)
  then have "\<bar>binary64 x - x\<bar> = \<bar>of_int (round_half_even (x / u)) - x / u\<bar> * u"
    using u by (simp add: abs_mult)
  also have "\<dots> \<le> 1 / 2 * u"
    using u round_half_even_near [of "x / u"] by (intro mult_right_mono) simp_all
  finally show ?thesis
    by (simp add: u_def)
qed

lemma binary64_exact:
  assumes "x = of_int j * pow2 (max (ilog2 \<bar>x\<bar>) (- 1022) - 52)"
  shows "binary64 x = x"
proof (cases "x = 0")
  case True
  then show ?thesis
    by (simp add: binary64_def)
next
  case False
  define u where "u = pow2 (max (ilog2 \<bar>x\<bar>) (- 1022) - 52)"
  have u: "0 < u"
    by (simp add: u_def pow2_pos)
  have "x / u = of_int j"
    using assms u by (simp add: u_def [symmetric])
  then have "binary64 x = of_int j * u"
    using False by (simp add: binary64_def Let_def u_def [symmetric] round_half_even_of_int)
  then show ?thesis
    using assms by (simp add: u_def)
qed

lemma binary64_of_int:
  assumes "\<bar>k\<bar> \<le> 2 ^ 53"
  shows "binary64 (of_int k) = of_int k"
proof (cases "k = 0")
  case True
  then show ?thesis
    by (simp add: binary64_def)
next
  case False
  define a :: real where "a = \<bar>of_int k\<bar>"
  define e where "e = ilog2 a"
  have a1: "1 \<le> a" and a53: "a \<le> 2 ^ 53"
  proof -
    from False have "1 \<le> \<bar>k\<bar>"
      by simp
    then have "(1::real) \<le> of_int \<bar>k\<bar>"
      by (simp only: of_int_1_le_iff)
    then show "1 \<le> a"
      by (simp add: a_def)
    from assms have "(of_int \<bar>k\<bar> :: real) \<le> of_int (2 ^ 53)"
      by (simp only: of_int_le_iff)
    then show "a \<le> 2 ^ 53"
      by (simp add: a_def)
  qed
  have e0: "0 \<le> e"
    using a1 bitLength_pos [of "nat \<lfloor>a\<rfloor>"] by (simp add: e_def ilog2_def)
  from ilog2_bounds [of a] a1 have eb: "pow2 e \<le> a" "a < pow2 (e + 1)"
    by (simp_all add: e_def)
  have pe: "pow2 e = 2 ^ nat e"
    using e0 by (simp add: pow2_def)
  have "(2::real) ^ nat e \<le> 2 ^ 53"
    using eb(1) a53 by (simp add: pe)
  then have "nat e \<le> 53"
    by (simp only: power_increasing_iff [of "2::real"])
  then have e53: "e \<le> 53"
    by simp
  have m: "max e (- 1022) = e"
    using e0 by simp
  have "\<exists>j. (of_int k :: real) = of_int j * pow2 (e - 52)"
  proof (cases "e = 53")
    case True
    then have "2 ^ 53 \<le> a"
      using eb(1) by (simp add: pow2_def)
    with a53 have "a = 2 ^ 53"
      by simp
    then have "(of_int \<bar>k\<bar> :: real) = of_int (2 ^ 53)"
      by (simp add: a_def)
    then have "\<bar>k\<bar> = 2 ^ 53"
      by (simp only: of_int_eq_iff)
    then have "k = 2 * 2 ^ 52 \<or> k = 2 * (- (2 ^ 52))"
      by (auto simp add: abs_if split: if_splits)
    then show ?thesis
      using True by (auto simp add: pow2_def intro: exI [of _ "2 ^ 52"] exI [of _ "- (2 ^ 52)"])
  next
    case False
    with e53 have "e \<le> 52"
      by simp
    show ?thesis
    proof (cases "e = 52")
      case True
      then show ?thesis
        by (auto simp add: pow2_def intro: exI [of _ k])
    next
      case False
      with \<open>e \<le> 52\<close> have "e - 52 < 0"
        by simp
      then have "pow2 (e - 52) = 1 / 2 ^ nat (52 - e)"
        by (simp add: pow2_def)
      then have "(of_int k :: real) = of_int (k * 2 ^ nat (52 - e)) * pow2 (e - 52)"
        by simp
      then show ?thesis
        by blast
    qed
  qed
  then obtain j where "(of_int k :: real) = of_int j * pow2 (max (ilog2 \<bar>of_int k\<bar>) (- 1022) - 52)"
    using m by (auto simp add: e_def a_def)
  then show ?thesis
    by (rule binary64_exact)
qed

subsection \<open>Rounding to binary64, evaluated\<close>

lemma binary64_at:
  assumes "x \<noteq> 0" and "ilog2 \<bar>x\<bar> = e" and "- 1022 \<le> e"
    and "round_half_even (x / pow2 (e - 52)) = m"
  shows "binary64 x = of_int m * pow2 (e - 52)"
  using assms by (simp add: binary64_def Let_def)

lemma binary64_1_2: "binary64 (6 / 5) = 5404319552844595 / 4503599627370496"
proof -
  have "binary64 (6 / 5) = of_int 5404319552844595 * pow2 (0 - 52)"
  proof (rule binary64_at)
    show "ilog2 \<bar>6 / 5\<bar> = 0"
      by (simp add: ilog2_def bitLength.simps)
    show "round_half_even (6 / 5 / pow2 (0 - 52)) = 5404319552844595"
      by (simp add: pow2_def round_half_even_def Let_def)
  qed simp_all
  then show ?thesis
    by (simp add: pow2_def)
qed

lemma gas_50000: "Math_floor (js_times 50000 (binary64 (6 / 5))) = 60000"
proof -
  have "binary64 (50000 * (5404319552844595 / 4503599627370496))
          = of_int 8246337208320000 * pow2 (15 - 52)"
  proof (rule binary64_at)
    show "ilog2 \<bar>50000 * (5404319552844595 / 4503599627370496)\<bar> = 15"
      by (simp add: ilog2_def bitLength.simps)
    show "round_half_even (50000 * (5404319552844595 / 4503599627370496) / pow2 (15 - 52))
            = 8246337208320000"
      by (simp add: pow2_def round_half_even_def Let_def)
  qed simp_all
  then show ?thesis
    by (simp add: js_times_def Math_floor_def binary64_1_2 pow2_def)
qed

lemma gas_40000: "Math_floor (js_times 40000 (binary64 (6 / 5))) = 48000"
proof -
  have "binary64 (40000 * (5404319552844595 / 4503599627370496))
          = of_int 6597069766656000 * pow2 (15 - 52)"
  proof (rule binary64_at)
    show "ilog2 \<bar>40000 * (5404319552844595 / 4503599627370496)\<bar> = 15"
      by (simp add: ilog2_def bitLength.simps)
    show "round_half_even (40000 * (5404319552844595 / 4503599627370496) / pow2 (15 - 52))
            = 6597069766656000"
      by (simp add: pow2_def round_half_even_def Let_def)
  qed simp_all
  then show ?thesis
    by (simp add: js_times_def Math_floor_def binary64_1_2 pow2_def)
qed

subsection \<open>Sequencing\<close>

lemma andThen_cases: "andThen r f = (if fst r = None then f (snd r) else r)"
  by (cases r) (auto simp add: andThen_def split: option.splits)

lemma andThen_Some: "fst r = Some e \<Longrightarrow> andThen r f = r"
  by (simp add: andThen_cases)

lemma andThen_None: "fst r = None \<Longrightarrow> andThen r f = f (snd r)"
  by (simp add: andThen_cases)

lemma andThen_NoneD:
  "andThen r f = (None, w') \<Longrightarrow> \<exists>w1. r = (None, w1) \<and> f w1 = (None, w')"
  by (cases r) (auto simp add: andThen_def split: option.splits)

lemma andThen_SomeD:
  "andThen r f = (Some e, w') \<Longrightarrow>
     r = (Some e, w') \<or> (\<exists>w1. r = (None, w1) \<and> f w1 = (Some e, w'))"
  by (cases r) (auto simp add: andThen_def split: option.splits)

lemma andThen_frame:
  assumes "g (snd r) = a" and "\<And>v. g (snd (f v)) = g v"
  shows "g (snd (andThen r f)) = a"
  using assms by (simp add: andThen_cases)

subsection \<open>The gate is not touched inside\<close>

lemma inside_refl: "inside w w"
  by (simp add: inside_def quiet_def)

lemma inside_trans: "inside w w1 \<Longrightarrow> inside w1 w2 \<Longrightarrow> inside w w2"
  by (auto simp add: inside_def quiet_def)

lemma inside_andThen:
  assumes "inside w (snd r)" and "\<And>v. inside v (snd (f v))"
  shows "inside w (snd (andThen r f))"
  using assms by (auto simp add: andThen_cases intro: inside_trans)

lemma inside_prepare_blockGasLimit: "inside w (snd (prepare_blockGasLimit n w))"
  by (simp add: prepare_blockGasLimit_def inside_def quiet_def emit_def set_BLOCK_GAS_LIMIT_def
      split: sum.splits)

lemma inside_prepare_gasLimit: "inside w (snd (prepare_gasLimit n w))"
  by (simp add: prepare_gasLimit_def inside_def quiet_def emit_def set_tx_def
      split: sum.splits)

lemma inside_prepare_gasPrice: "inside w (snd (prepare_gasPrice n w))"
  by (simp add: prepare_gasPrice_def inside_def quiet_def emit_def set_gasPrice_def
      split: sum.splits)

lemma inside_prepare_nonce: "inside w (snd (prepare_nonce n w))"
  by (simp add: prepare_nonce_def inside_def quiet_def emit_def set_tx_def set_m_nonce_def
      assign_nonce_def split: sum.splits)

lemma inside_prepare_chainId: "inside w (snd (prepare_chainId n w))"
  by (simp add: prepare_chainId_def inside_def quiet_def emit_def set_tx_def
      split: sum.splits)

lemma inside_prepare: "inside w (snd (prepare n w))"
  unfolding prepare_def
  by (intro inside_andThen inside_prepare_blockGasLimit inside_prepare_gasLimit
      inside_prepare_gasPrice inside_prepare_nonce inside_prepare_chainId)

lemma inside_send': "inside w (snd (send' n w))"
  by (simp add: send'_def inside_def quiet_def emit_def Let_def split: sum.splits)

lemma inside_advanceNonce: "inside w (snd (advanceNonce w))"
  by (simp add: advanceNonce_def inside_def quiet_def set_m_nonce_def)

lemma inside_body: "inside w (snd (andThen (andThen (prepare n w) (send' n)) advanceNonce))"
  by (intro inside_andThen inside_prepare inside_send' inside_advanceNonce)

subsection \<open>What each step writes\<close>

lemma prepare_NoneD:
  assumes "prepare n w = (None, w')"
  shows "\<exists>w1 w2 w3 w4.
           prepare_blockGasLimit n w = (None, w1) \<and> prepare_gasLimit n w1 = (None, w2)
           \<and> prepare_gasPrice n w2 = (None, w3) \<and> prepare_nonce n w3 = (None, w4)
           \<and> prepare_chainId n w4 = (None, w')"
  using assms unfolding prepare_def by (blast dest: andThen_NoneD)

lemma prepare_blockGasLimit_frame:
  "txn (snd (prepare_blockGasLimit n w)) = txn w"
  "m_nonce (mgr (snd (prepare_blockGasLimit n w))) = m_nonce (mgr w)"
  "address (mgr (snd (prepare_blockGasLimit n w))) = address (mgr w)"
  "GAS_LIMIT_MULTIPLIER (config (mgr (snd (prepare_blockGasLimit n w))))
     = GAS_LIMIT_MULTIPLIER (config (mgr w))"
  by (simp_all add: prepare_blockGasLimit_def setter_defs split: sum.splits)

lemma prepare_blockGasLimit_known:
  "prepare_blockGasLimit n w = (None, w1) \<Longrightarrow> \<exists>b. BLOCK_GAS_LIMIT (config (mgr w1)) = Some b"
  by (auto simp add: prepare_blockGasLimit_def falsy_def setter_defs
      split: sum.splits if_splits)

lemma prepare_gasLimit_frame:
  "mgr (snd (prepare_gasLimit n w)) = mgr w"
  "nonce (tx (txn (snd (prepare_gasLimit n w)))) = nonce (tx (txn w))"
  by (simp_all add: prepare_gasLimit_def setter_defs split: sum.splits)

lemma prepare_gasLimit_estimate:
  assumes "prepare_gasLimit n w = (None, w2)" and "falsy (gasLimit (tx (txn w)))"
  shows "\<exists>g. estimateGas n (tx (txn w)) = Inr g
           \<and> gasLimit (tx (txn w2)) = scaled_gasLimit g w"
  using assms by (auto simp add: prepare_gasLimit_def setter_defs split: sum.splits)

lemma prepare_gasPrice_frame:
  "mgr (snd (prepare_gasPrice n w)) = mgr w"
  "gasLimit (tx (txn (snd (prepare_gasPrice n w)))) = gasLimit (tx (txn w))"
  "nonce (tx (txn (snd (prepare_gasPrice n w)))) = nonce (tx (txn w))"
  by (simp_all add: prepare_gasPrice_def setter_defs split: sum.splits)

lemma prepare_nonce_frame:
  "config (mgr (snd (prepare_nonce n w))) = config (mgr w)"
  "address (mgr (snd (prepare_nonce n w))) = address (mgr w)"
  "gasLimit (tx (txn (snd (prepare_nonce n w)))) = gasLimit (tx (txn w))"
  by (simp_all add: prepare_nonce_def setter_defs split: sum.splits)

lemma prepare_chainId_frame:
  "mgr (snd (prepare_chainId n w)) = mgr w"
  "gasLimit (tx (txn (snd (prepare_chainId n w)))) = gasLimit (tx (txn w))"
  "nonce (tx (txn (snd (prepare_chainId n w)))) = nonce (tx (txn w))"
  by (simp_all add: prepare_chainId_def setter_defs split: sum.splits)

lemma send'_frame:
  "mgr (snd (send' n w)) = mgr w"
  "tx (txn (snd (send' n w))) = tx (txn w)"
  by (simp_all add: send'_def setter_defs Let_def split: sum.splits)



lemma first_steps_m_nonce:
  "m_nonce (mgr (snd (andThen (andThen (prepare_blockGasLimit n w) (prepare_gasLimit n))
                        (prepare_gasPrice n)))) = m_nonce (mgr w)"
proof (rule andThen_frame)
  show "m_nonce (mgr (snd (andThen (prepare_blockGasLimit n w) (prepare_gasLimit n))))
          = m_nonce (mgr w)"
    by (rule andThen_frame) (simp_all add: prepare_blockGasLimit_frame prepare_gasLimit_frame)
qed (simp add: prepare_gasPrice_frame)

lemma first_steps_address:
  "address (mgr (snd (andThen (andThen (prepare_blockGasLimit n w) (prepare_gasLimit n))
                        (prepare_gasPrice n)))) = address (mgr w)"
proof (rule andThen_frame)
  show "address (mgr (snd (andThen (prepare_blockGasLimit n w) (prepare_gasLimit n))))
          = address (mgr w)"
    by (rule andThen_frame) (simp_all add: prepare_blockGasLimit_frame prepare_gasLimit_frame)
qed (simp add: prepare_gasPrice_frame)



lemma increaseGasPrice_frame:
  "mgr (snd (increaseGasPrice w)) = mgr w"
  "events (snd (increaseGasPrice w)) = events w"
  "executed (txn (snd (increaseGasPrice w))) = executed (txn w)"
  "nonce (tx (txn (snd (increaseGasPrice w)))) = nonce (tx (txn w))"
  by (simp_all add: increaseGasPrice_def setter_defs Let_def split: option.splits)

lemma send'_broadcasts:
  "\<exists>evs. events (snd (send' n w)) = events w @ evs
         \<and> (\<forall>r. SendTransaction r \<in> set evs \<longrightarrow> r = tx (txn w))"
  by (simp add: send'_def setter_defs Let_def split: sum.splits)

lemma send'_executed: "executed (txn (snd (send' n w))) = executed (txn w)"
  by (simp add: send'_def setter_defs Let_def split: sum.splits)

lemma replace_gasLimit_frame:
  "mgr (snd (replace_gasLimit n req w)) = mgr w"
  "txn (snd (replace_gasLimit n req w)) = txn w"
  "\<exists>evs. events (snd (replace_gasLimit n req w)) = events w @ evs
         \<and> (\<forall>r. SendTransaction r \<notin> set evs)"
  by (simp_all add: replace_gasLimit_def setter_defs split: sum.splits)

lemma execute_executed:
  assumes "execute n w = Some (r, w')"
  shows "executed (txn w') = executed (txn w)"
proof -
  have free: "\<not> mutex_held (mgr w)"
    using assms by (auto simp add: execute_def)
  define w1 where "w1 = emit MutexAcquire (set_mutex True w)"
  have "inside w1 (snd (andThen (andThen (prepare n w1) (send' n)) advanceNonce))"
    by (rule inside_body)
  moreover have "w' = emit MutexRelease (set_mutex False
      (snd (andThen (andThen (prepare n w1) (send' n)) advanceNonce)))"
    using assms free unfolding execute_def Let_def w1_def by simp
  ultimately show ?thesis
    by (simp add: inside_def w1_def setter_defs)
qed

lemma send_sets_executed: "executed (txn (snd (send n w)))"
proof (cases "executed (txn w)")
  case True
  then show ?thesis
    by (simp add: send_def)
next
  case False
  define w1 where "w1 = w\<lparr>txn := (txn w)\<lparr>executed := True\<rparr>\<rparr>"
  show ?thesis
  proof (cases "execute n w1")
    case None
    with False show ?thesis
      by (simp add: send_def Let_def w1_def [symmetric]) (simp add: w1_def)
  next
    case (Some res)
    obtain r w2 where res: "res = (r, w2)"
      by (cases res)
    have "executed (txn w2)"
      using execute_executed [of n w1 r w2] Some res by (simp add: w1_def)
    with False Some res show ?thesis
      by (cases r) (simp_all add: send_def Let_def w1_def [symmetric] setter_defs)
  qed
qed

subsection \<open>The scenarios, evaluated\<close>

lemma prepare_fresh_ok:
  "fst (prepare (demo_net g c demo_sent) (fresh_world None)) = None"
  by (simp add: prepare_def andThen_def prepare_blockGasLimit_def prepare_gasLimit_def
      prepare_gasPrice_def prepare_nonce_def prepare_chainId_def falsy_def demo_defs setter_defs)

lemma prepare_fresh_limit:
  "BLOCK_GAS_LIMIT (config (mgr (snd (prepare (demo_net g c demo_sent) (fresh_world None)))))
     = Some 60000"
  by (simp add: prepare_def andThen_def prepare_blockGasLimit_def prepare_gasLimit_def
      prepare_gasPrice_def prepare_nonce_def prepare_chainId_def falsy_def demo_defs setter_defs)




section \<open>The nonce advances on success only\<close>





section \<open>Replace and cancel keep the nonce\<close>

lemma replace_keeps_nonce:
  assumes "executed (txn w)"
  shows "nonce (tx (txn (snd (replace n req w)))) = nonce (tx (txn w))
         \<and> executed (txn (snd (replace n req w)))
         \<and> mgr (snd (replace n req w)) = mgr w
         \<and> (\<exists>evs. events (snd (replace n req w)) = events w @ evs
               \<and> (\<forall>r. SendTransaction r \<in> set evs \<longrightarrow> nonce r = nonce (tx (txn w))))"
proof (cases "replace_gasLimit n req w")
  case (Pair res w1)
  have w1: "mgr w1 = mgr w" "txn w1 = txn w"
    using replace_gasLimit_frame(1,2) [of n req w] Pair by simp_all
  obtain evs1 where evs1: "events w1 = events w @ evs1" "\<forall>r. SendTransaction r \<notin> set evs1"
    using replace_gasLimit_frame(3) [of n req w] Pair by auto
  show ?thesis
  proof (cases res)
    case (Inl e)
    then have "replace n req w = (Some e, w1)"
      using assms Pair by (simp add: replace_def)
    then show ?thesis
      using w1 evs1 assms by simp
  next
    case (Inr req1)
    define req3 where "req3 = req1\<lparr>nonce := nonce (tx (txn w1)),
        gasPrice := Math_max (gasPrice (tx (txn w1)))
                      (case gasPrice (req1\<lparr>nonce := nonce (tx (txn w1))\<rparr>) of
                         None \<Rightarrow> 0 | Some p \<Rightarrow> p)\<rparr>"
    define w2 where "w2 = snd (increaseGasPrice (set_tx req3 w1))"
    have r: "replace n req w = (case fst (increaseGasPrice (set_tx req3 w1)) of
                 Inl e \<Rightarrow> (Some e, w2) | Inr bumped \<Rightarrow> send' n w2)"
      using assms Pair Inr
      by (simp add: replace_def Let_def req3_def w2_def split: prod.splits sum.splits)
    have w2: "nonce (tx (txn w2)) = nonce (tx (txn w))" "executed (txn w2)" "mgr w2 = mgr w"
      "events w2 = events w1"
      using assms by (simp_all add: w2_def increaseGasPrice_frame set_tx_def req3_def w1)
    show ?thesis
    proof (cases "fst (increaseGasPrice (set_tx req3 w1))")
      case (Inl e)
      then show ?thesis
        using r w2 evs1 by simp
    next
      case (Inr bumped)
      then have s: "replace n req w = send' n w2"
        using r by simp
      obtain evs2 where evs2: "events (snd (send' n w2)) = events w2 @ evs2"
        "\<forall>r. SendTransaction r \<in> set evs2 \<longrightarrow> r = tx (txn w2)"
        using send'_broadcasts [of n w2] by blast
      have "events (snd (replace n req w)) = events w @ (evs1 @ evs2)"
        by (simp add: s evs2 w2 evs1)
      moreover have "\<forall>r. SendTransaction r \<in> set (evs1 @ evs2) \<longrightarrow> nonce r = nonce (tx (txn w))"
        using evs1(2) evs2(2) w2(1) by auto
      ultimately show ?thesis
        using w2 by (simp add: s send'_frame send'_executed del: append_assoc)
    qed
  qed
qed

lemma cancel_keeps_nonce:
  assumes "executed (txn w)"
  shows "nonce (tx (txn (snd (cancel n w)))) = nonce (tx (txn w))
         \<and> executed (txn (snd (cancel n w)))
         \<and> mgr (snd (cancel n w)) = mgr w
         \<and> (\<exists>evs. events (snd (cancel n w)) = events w @ evs
               \<and> (\<forall>r. SendTransaction r \<in> set evs \<longrightarrow> nonce r = nonce (tx (txn w))))"
  unfolding cancel_def using assms by (rule replace_keeps_nonce)

lemma perform_keeps_nonce:
  assumes "executed (txn w)"
  shows "nonce (tx (txn (snd (perform c w)))) = nonce (tx (txn w))
         \<and> executed (txn (snd (perform c w)))
         \<and> mgr (snd (perform c w)) = mgr w
         \<and> (\<exists>evs. events (snd (perform c w)) = events w @ evs
               \<and> (\<forall>r. SendTransaction r \<in> set evs \<longrightarrow> nonce r = nonce (tx (txn w))))"
proof (cases c)
  case (Pair n call)
  show ?thesis
  proof (cases call)
    case (Replace req)
    with Pair replace_keeps_nonce [OF assms, of n req] show ?thesis
      by simp
  next
    case Cancel
    with Pair cancel_keeps_nonce [OF assms, of n] show ?thesis
      by simp
  qed
qed

lemma broadcasts_append: "broadcasts (xs @ ys) = broadcasts xs @ broadcasts ys"
  by (induction xs rule: broadcasts.induct) simp_all

lemma send'_broadcasts_once:
  "\<exists>evs. events (snd (send' n w)) = events w @ evs \<and> broadcasts evs = [tx (txn w)]"
  by (simp add: send'_def setter_defs Let_def split: sum.splits)

lemma replace_gasLimit_no_broadcast:
  "\<exists>evs. events (snd (replace_gasLimit n req w)) = events w @ evs \<and> broadcasts evs = []"
  by (simp add: replace_gasLimit_def setter_defs split: sum.splits)

lemma increaseGasPrice_readable:
  "gasPrice (tx (txn w)) \<noteq> None \<Longrightarrow> \<exists>bumped. fst (increaseGasPrice w) = Inr bumped"
  by (cases "gasPrice (tx (txn w))") (auto simp add: increaseGasPrice_def Let_def)

lemma replace_gasLimit_ok:
  assumes "if falsy (gasLimit req)
           then (case estimateGas n req of Inl e \<Rightarrow> False | Inr gas \<Rightarrow> True) else True"
  shows "\<exists>req1. fst (replace_gasLimit n req w) = Inr req1"
proof (cases "falsy (gasLimit req)")
  case True
  with assms obtain gas where "estimateGas n req = Inr gas"
    by (cases "estimateGas n req") simp_all
  with True show ?thesis
    by (simp add: replace_gasLimit_def)
next
  case False
  then show ?thesis
    by (simp add: replace_gasLimit_def)
qed

lemma price_readable_Some: "price_readable offered w \<Longrightarrow> \<exists>q. gasPrice (tx (txn w)) = Some q"
  by (cases "gasPrice (tx (txn w))") (simp_all add: price_readable_def)

text \<open>
  In the executed branch, \<^verbatim>\<open>replace\<close> gets to \<^verbatim>\<open>_send\<close> exactly when the gas limit is
  given or estimated and the pending request has a price; it then sends a request
  that holds the nonce of the pending one.
\<close>

lemma replace_reaches_send:
  assumes "executed (txn w)" and "fst (replace_gasLimit n req w) = Inr req1"
    and "gasPrice (tx (txn w)) = Some p"
  shows "\<exists>w2 evs. replace n req w = send' n w2 \<and> events w2 = events w @ evs
           \<and> broadcasts evs = [] \<and> nonce (tx (txn w2)) = nonce (tx (txn w))"
proof -
  define w1 where "w1 = snd (replace_gasLimit n req w)"
  have g: "replace_gasLimit n req w = (Inr req1, w1)"
    using assms(2) by (simp add: w1_def prod_eq_iff)
  have w1: "mgr w1 = mgr w" "txn w1 = txn w"
    using replace_gasLimit_frame(1,2) [of n req w] by (simp_all add: w1_def)
  obtain evs where evs: "events w1 = events w @ evs" "broadcasts evs = []"
    using replace_gasLimit_no_broadcast [of n req w] by (auto simp add: w1_def)
  define req3 where "req3 = req1\<lparr>nonce := nonce (tx (txn w1)),
      gasPrice := Math_max (gasPrice (tx (txn w1)))
                    (case gasPrice (req1\<lparr>nonce := nonce (tx (txn w1))\<rparr>) of
                       None \<Rightarrow> 0 | Some p \<Rightarrow> p)\<rparr>"
  define w2 where "w2 = snd (increaseGasPrice (set_tx req3 w1))"
  have "gasPrice (tx (txn (set_tx req3 w1))) \<noteq> None"
    by (simp add: set_tx_def req3_def w1 assms(3) Math_max_def)
  then obtain bumped where "fst (increaseGasPrice (set_tx req3 w1)) = Inr bumped"
    using increaseGasPrice_readable by blast
  then have "increaseGasPrice (set_tx req3 w1) = (Inr bumped, w2)"
    by (simp add: w2_def prod_eq_iff)
  then have "replace n req w = send' n w2"
    using assms(1) g by (simp add: replace_def Let_def req3_def)
  moreover have "events w2 = events w @ evs" "nonce (tx (txn w2)) = nonce (tx (txn w))"
    by (simp_all add: w2_def increaseGasPrice_frame set_tx_def req3_def w1 evs)
  ultimately show ?thesis
    using evs(2) by blast
qed

lemma replace_normal_reached:
  assumes "executed (txn w)" and "fst (replace n req w) = None"
  shows "(\<exists>req1. fst (replace_gasLimit n req w) = Inr req1)
         \<and> (\<exists>p. gasPrice (tx (txn w)) = Some p)"
proof -
  obtain res w1 where g: "replace_gasLimit n req w = (res, w1)"
    by (cases "replace_gasLimit n req w")
  have w1: "txn w1 = txn w"
    using replace_gasLimit_frame(2) [of n req w] g by simp
  show ?thesis
  proof (cases res)
    case (Inl e)
    then show ?thesis
      using assms g by (simp add: replace_def)
  next
    case (Inr req1)
    show ?thesis
    proof (cases "gasPrice (tx (txn w))")
      case None
      define req3 where "req3 = req1\<lparr>nonce := nonce (tx (txn w1)),
          gasPrice := Math_max (gasPrice (tx (txn w1)))
                        (case gasPrice (req1\<lparr>nonce := nonce (tx (txn w1))\<rparr>) of
                           None \<Rightarrow> 0 | Some p \<Rightarrow> p)\<rparr>"
      have "gasPrice (tx (txn (set_tx req3 w1))) = None"
        by (simp add: set_tx_def req3_def w1 None Math_max_def)
      then have "increaseGasPrice (set_tx req3 w1) = (Inl BigNumberFault, set_tx req3 w1)"
        by (simp add: increaseGasPrice_def Let_def)
      then have "replace n req w = (Some BigNumberFault, set_tx req3 w1)"
        using assms(1) g Inr by (simp add: replace_def Let_def req3_def)
      with assms(2) show ?thesis
        by simp
    next
      case (Some p)
      then show ?thesis
        using g Inr by simp
    qed
  qed
qed

lemma replace_resubmits:
  assumes "executed (txn w)" and "nonce (tx (txn w)) = Some k"
    and "fst (replace_gasLimit n req w) = Inr req1" and "gasPrice (tx (txn w)) = Some p"
  shows "resubmitted k w (snd (replace n req w))"
proof -
  from replace_reaches_send [OF assms(1,3,4)] obtain w2 evs where
    r: "replace n req w = send' n w2" "events w2 = events w @ evs" "broadcasts evs = []"
      "nonce (tx (txn w2)) = nonce (tx (txn w))"
    by blast
  obtain evs2 where s: "events (snd (send' n w2)) = events w2 @ evs2"
    "broadcasts evs2 = [tx (txn w2)]"
    using send'_broadcasts_once [of n w2] by blast
  have "events (snd (replace n req w)) = events w @ (evs @ evs2)"
    by (simp add: r s)
  moreover have "map nonce (broadcasts (evs @ evs2)) = [Some k]"
    by (simp add: broadcasts_append r s assms(2))
  ultimately have "events (snd (replace n req w)) = events w @ (evs @ evs2)
      \<and> map nonce (broadcasts (evs @ evs2)) = [Some k]"
    by (rule conjI)
  then show ?thesis
    unfolding resubmitted_def by (rule exI)
qed

lemma perform_resubmits:
  assumes "executed (txn w)" and "nonce (tx (txn w)) = Some k"
  shows "(fst (perform c w) = None \<longrightarrow> resubmitted k w (snd (perform c w)))
         \<and> (reaches_broadcast c w \<longrightarrow> resubmitted k w (snd (perform c w)))"
proof -
  obtain n call where c: "c = (n, call)"
    by (cases c)
  define req where "req = (case call of Replace r \<Rightarrow> r | Cancel \<Rightarrow>
       \<lparr>tx_from = Some (address (mgr w)), tx_to = Some (address (mgr w)),
        tx_value = Some 0, tx_data = None, gasLimit = Some 21000, gasPrice = None,
        nonce = None, chainId = None\<rparr>)"
  have p: "perform c w = replace n req w"
    by (cases call) (simp_all add: c req_def cancel_def)
  have reach: "(\<exists>req1. fst (replace_gasLimit n req w) = Inr req1)
      \<and> (\<exists>q. gasPrice (tx (txn w)) = Some q)" if "reaches_broadcast c w"
  proof (cases call)
    case (Replace r)
    with that c have "if falsy (gasLimit r)
        then (case estimateGas n r of Inl e \<Rightarrow> False | Inr gas \<Rightarrow> True) else True"
      and "price_readable (gasPrice r) w"
      by simp_all
    then show ?thesis
      using replace_gasLimit_ok [of r n w] price_readable_Some [of "gasPrice r" w] Replace
      by (simp add: req_def)
  next
    case Cancel
    with that c have "price_readable None w"
      by simp
    moreover have "\<exists>req1. fst (replace_gasLimit n req w) = Inr req1"
      using Cancel by (simp add: req_def replace_gasLimit_def falsy_def)
    ultimately show ?thesis
      using price_readable_Some [of None w] by simp
  qed
  show ?thesis
  proof (intro conjI impI)
    assume "fst (perform c w) = None"
    then have "fst (replace n req w) = None"
      by (simp add: p)
    from replace_normal_reached [OF assms(1) this] obtain req1 q where
      "fst (replace_gasLimit n req w) = Inr req1" "gasPrice (tx (txn w)) = Some q"
      by blast
    from replace_resubmits [OF assms this] show "resubmitted k w (snd (perform c w))"
      by (simp add: p)
  next
    assume "reaches_broadcast c w"
    from reach [OF this] obtain req1 q where
      "fst (replace_gasLimit n req w) = Inr req1" "gasPrice (tx (txn w)) = Some q"
      by blast
    from replace_resubmits [OF assms this] show "resubmitted k w (snd (perform c w))"
      by (simp add: p)
  qed
qed

lemma run_calls_keep_nonce:
  assumes "executed (txn w)" and "nonce (tx (txn w)) = Some k"
  shows "nonce (tx (txn (run_calls cs w))) = Some k
         \<and> executed (txn (run_calls cs w))
         \<and> m_nonce (mgr (run_calls cs w)) = m_nonce (mgr w)
         \<and> (\<exists>evs. events (run_calls cs w) = events w @ evs
               \<and> (\<forall>r. SendTransaction r \<in> set evs \<longrightarrow> nonce r = Some k))"
  using assms
proof (induction cs arbitrary: w)
  case Nil
  then show ?case
    by simp
next
  case (Cons c cs)
  define v where "v = snd (perform c w)"
  from perform_keeps_nonce [OF Cons.prems(1), of c] Cons.prems(2) obtain evs1 where
    v: "nonce (tx (txn v)) = Some k" "executed (txn v)" "mgr v = mgr w"
      "events v = events w @ evs1" "\<forall>r. SendTransaction r \<in> set evs1 \<longrightarrow> nonce r = Some k"
    unfolding v_def by auto
  from Cons.IH [OF v(2) v(1)] obtain evs2 where
    rest: "nonce (tx (txn (run_calls cs v))) = Some k"
      "executed (txn (run_calls cs v))"
      "m_nonce (mgr (run_calls cs v)) = m_nonce (mgr v)"
      "events (run_calls cs v) = events v @ evs2"
      "\<forall>r. SendTransaction r \<in> set evs2 \<longrightarrow> nonce r = Some k"
    by auto
  have "events (run_calls (c # cs) w) = events w @ (evs1 @ evs2)"
    by (simp add: v_def [symmetric] rest(4) v(4))
  moreover have "\<forall>r. SendTransaction r \<in> set (evs1 @ evs2) \<longrightarrow> nonce r = Some k"
    using v(5) rest(5) by auto
  ultimately show ?case
    using rest(1,2,3) v(3) by (simp add: v_def [symmetric] del: append_assoc)
qed

lemmas replace_defs =
  replace_def replace_gasLimit_def cancel_def increaseGasPrice_def BigNumber_div_def

text \<open>
  Claim C2. For a transaction that has been executed and holds the nonce \<open>k\<close>
  assigned during preparation, after any sequence of \<^verbatim>\<open>replace\<close> and \<^verbatim>\<open>cancel\<close> calls,
  whatever the network answers and whether the calls succeed or fail, the request
  still holds the nonce \<open>k\<close>, every request these calls handed to the network carries
  the nonce \<open>k\<close>, and the manager's nonce is untouched. Every further \<^verbatim>\<open>replace\<close> or
  \<^verbatim>\<open>cancel\<close> call that ends normally has resubmitted: it handed exactly one request to
  the network, with the nonce \<open>k\<close>. So has every call that got as far as the
  submission, whether or not the broadcast or the wait for the receipt then failed:
  a \<^verbatim>\<open>cancel\<close> whenever the pending price is readable, a \<^verbatim>\<open>replace\<close> whenever moreover
  its gas limit is given or the estimate succeeds.
\<close>

theorem replace_cancel_keep_nonce:
  assumes "executed (txn w)" and "nonce (tx (txn w)) = Some k"
  shows "nonce (tx (txn (run_calls cs w))) = Some k
         \<and> m_nonce (mgr (run_calls cs w)) = m_nonce (mgr w)
         \<and> (\<exists>evs. events (run_calls cs w) = events w @ evs
               \<and> (\<forall>r. SendTransaction r \<in> set evs \<longrightarrow> nonce r = Some k))
         \<and> (fst (perform c (run_calls cs w)) = None \<longrightarrow>
               resubmitted k (run_calls cs w) (snd (perform c (run_calls cs w))))
         \<and> (reaches_broadcast c (run_calls cs w) \<longrightarrow>
               resubmitted k (run_calls cs w) (snd (perform c (run_calls cs w))))"
proof -
  note inv = run_calls_keep_nonce [OF assms, of cs]
  from inv have "executed (txn (run_calls cs w))" "nonce (tx (txn (run_calls cs w))) = Some k"
    by simp_all
  from perform_resubmits [OF this, of c] inv show ?thesis
    by simp
qed

theorem replace_cancel_keep_nonce_witness:
  "nonce (tx (txn (run_calls
        [(demo_net 50000 9 demo_sent, Replace demo_request),
         (demo_net 50000 9 (Inl (NetworkError ''broadcast failed'')), Cancel)]
        (pending_world 100 10 5 1000)))) = Some 7
   \<and> resubmitted 7 (pending_world 100 10 5 1000)
        (snd (perform (demo_net 50000 9 demo_sent, Replace demo_request)
                (pending_world 100 10 5 1000)))
   \<and> resubmitted 7
        (run_calls [(demo_net 50000 9 demo_sent, Replace demo_request)]
           (pending_world 100 10 5 1000))
        (snd (perform (demo_net 50000 9 (Inl (NetworkError ''broadcast failed'')), Cancel)
                (run_calls [(demo_net 50000 9 demo_sent, Replace demo_request)]
                   (pending_world 100 10 5 1000))))
   \<and> map nonce (broadcasts (events (run_calls
        [(demo_net 50000 9 demo_sent, Replace demo_request),
         (demo_net 50000 9 (Inl (NetworkError ''broadcast failed'')), Cancel)]
        (pending_world 100 10 5 1000)))) = [Some 7, Some 7]"
proof -
  have e: "executed (txn (pending_world 100 10 5 1000))"
    and k: "nonce (tx (txn (pending_world 100 10 5 1000))) = Some 7"
    by (simp_all add: demo_defs)
  have normal: "fst (perform (demo_net 50000 9 demo_sent, Replace demo_request)
                       (run_calls [] (pending_world 100 10 5 1000))) = None"
    by (simp add: replace_defs model_defs demo_defs setter_defs gas_50000)
  have reach: "reaches_broadcast (demo_net 50000 9 (Inl (NetworkError ''broadcast failed'')), Cancel)
                 (run_calls [(demo_net 50000 9 demo_sent, Replace demo_request)]
                    (pending_world 100 10 5 1000))"
    by (simp add: price_readable_def safe_price_def replace_defs model_defs demo_defs
        setter_defs gas_50000)
  have both: "map nonce (broadcasts (events (run_calls
        [(demo_net 50000 9 demo_sent, Replace demo_request),
         (demo_net 50000 9 (Inl (NetworkError ''broadcast failed'')), Cancel)]
        (pending_world 100 10 5 1000)))) = [Some 7, Some 7]"
    by (simp add: replace_defs model_defs demo_defs setter_defs gas_50000)
  show ?thesis
    using replace_cancel_keep_nonce [OF e k,
        of "[(demo_net 50000 9 demo_sent, Replace demo_request),
            (demo_net 50000 9 (Inl (NetworkError ''broadcast failed'')), Cancel)]"]
      replace_cancel_keep_nonce [OF e k, of "[]"
        "(demo_net 50000 9 demo_sent, Replace demo_request)"]
      replace_cancel_keep_nonce [OF e k,
        of "[(demo_net 50000 9 demo_sent, Replace demo_request)]"
           "(demo_net 50000 9 (Inl (NetworkError ''broadcast failed'')), Cancel)"]
      normal reach both
    by simp
qed

section \<open>Gas price escalation: the formula\<close>



section \<open>Gas price escalation: the bound\<close>



section \<open>A second send\<close>

text \<open>
  Claim C6. In every state in which the \<^verbatim>\<open>executed\<close> flag of the transaction is set,
  \<^verbatim>\<open>send\<close> throws the already-executed error and changes nothing: the transaction, the
  manager and the record of network calls and events are as they were before the
  call. The first \<^verbatim>\<open>send\<close> sets the flag before it does anything else and nothing
  resets it, so after a \<^verbatim>\<open>send\<close>, whatever its outcome, a further \<^verbatim>\<open>send\<close> fails in this
  way.
\<close>

theorem send_twice_fails:
  "(executed (txn w) \<longrightarrow> send n w = (Inl AlreadyExecuted, w))
   \<and> executed (txn (snd (send n1 v)))
   \<and> send n2 (snd (send n1 v)) = (Inl AlreadyExecuted, snd (send n1 v))"
  using send_sets_executed [of n1 v] by (simp add: send_def)

theorem send_twice_fails_witness:
  "executed (txn (pending_world 100 10 5 1000))
   \<and> send (demo_net 50000 7 demo_sent) (pending_world 100 10 5 1000)
       = (Inl AlreadyExecuted, pending_world 100 10 5 1000)
   \<and> send (demo_net 50000 7 demo_sent) (snd (send (demo_net 50000 7 demo_sent) (fresh_world None)))
       = (Inl AlreadyExecuted, snd (send (demo_net 50000 7 demo_sent) (fresh_world None)))
   \<and> promise (txn (snd (send (demo_net 50000 7 demo_sent) (fresh_world None))))
       = Resolved (Some ''receipt of 0xA1'')"
  using send_twice_fails [of "pending_world 100 10 5 1000" "demo_net 50000 7 demo_sent"
      "demo_net 50000 7 demo_sent" "fresh_world None" "demo_net 50000 7 demo_sent"]
  by (simp add: send_def model_defs demo_defs setter_defs gas_50000)

section \<open>The gas limit set by the preparation\<close>

text \<open>
  Claim C8. When the request has no gas limit and the preparation succeeds, the gas
  limit of the request is \<open>min (floor (estimate * multiplier)) blockGasLimit\<close>: the
  estimate is the network's answer for the request, the product is the JavaScript
  product of two numbers, and \<open>blockGasLimit\<close> is the configured block gas limit as it
  stands after the preparation. With the multiplier \<^verbatim>\<open>1.2\<close> and a block gas limit of
  60000, an estimate of 50000 gives 60000 and an estimate of 40000 gives 48000.
\<close>

theorem prepare_gasLimit_value:
  assumes "prepare n w = (None, w')" and "falsy (gasLimit (tx (txn w)))"
  shows "\<exists>g b. estimateGas n (tx (txn w)) = Inr g
           \<and> BLOCK_GAS_LIMIT (config (mgr w')) = Some b
           \<and> gasLimit (tx (txn w'))
               = Some (min (Math_floor (js_times (of_int g)
                                          (GAS_LIMIT_MULTIPLIER (config (mgr w))))) b)"
proof -
  from prepare_NoneD [OF assms(1)] obtain w1 w2 w3 w4 where
    s1: "prepare_blockGasLimit n w = (None, w1)" and
    s2: "prepare_gasLimit n w1 = (None, w2)" and
    s3: "prepare_gasPrice n w2 = (None, w3)" and
    s4: "prepare_nonce n w3 = (None, w4)" and
    s5: "prepare_chainId n w4 = (None, w')"
    by blast
  from prepare_blockGasLimit_known [OF s1] obtain b where
    b: "BLOCK_GAS_LIMIT (config (mgr w1)) = Some b" ..
  have t1: "txn w1 = txn w"
    and m1: "GAS_LIMIT_MULTIPLIER (config (mgr w1)) = GAS_LIMIT_MULTIPLIER (config (mgr w))"
    using prepare_blockGasLimit_frame [of n w] s1 by simp_all
  from prepare_gasLimit_estimate [OF s2] assms(2) t1 obtain g where
    g: "estimateGas n (tx (txn w)) = Inr g" "gasLimit (tx (txn w2)) = scaled_gasLimit g w1"
    by auto
  have c2: "mgr w2 = mgr w1"
    using prepare_gasLimit_frame [of n w1] s2 by simp
  have c3: "mgr w3 = mgr w2" and l3: "gasLimit (tx (txn w3)) = gasLimit (tx (txn w2))"
    using prepare_gasPrice_frame [of n w2] s3 by simp_all
  have c4: "config (mgr w4) = config (mgr w3)"
    and l4: "gasLimit (tx (txn w4)) = gasLimit (tx (txn w3))"
    using prepare_nonce_frame [of n w3] s4 by simp_all
  have c5: "mgr w' = mgr w4" and l5: "gasLimit (tx (txn w')) = gasLimit (tx (txn w4))"
    using prepare_chainId_frame [of n w4] s5 by simp_all
  have "BLOCK_GAS_LIMIT (config (mgr w')) = Some b"
    by (simp add: c5 c4 c3 c2 b)
  moreover have "gasLimit (tx (txn w'))
      = Some (min (Math_floor (js_times (of_int g) (GAS_LIMIT_MULTIPLIER (config (mgr w))))) b)"
    by (simp add: l5 l4 l3 g(2) scaled_gasLimit_def Math_min_def b m1)
  ultimately show ?thesis
    using g(1) by blast
qed

theorem prepare_gasLimit_value_witness:
  "gasLimit (tx (txn (snd (prepare (demo_net 50000 7 demo_sent) (fresh_world None)))))
     = Some 60000
   \<and> gasLimit (tx (txn (snd (prepare (demo_net 40000 7 demo_sent) (fresh_world None)))))
     = Some 48000"
proof -
  have none: "falsy (gasLimit (tx (txn (fresh_world None))))"
    by (simp add: falsy_def demo_defs)
  have mult: "GAS_LIMIT_MULTIPLIER (config (mgr (fresh_world None))) = binary64 (6 / 5)"
    by (simp add: demo_defs)
  have ok: "prepare (demo_net g 7 demo_sent) (fresh_world None)
              = (None, snd (prepare (demo_net g 7 demo_sent) (fresh_world None)))" for g
    using prepare_fresh_ok [of g 7] by (simp add: prod_eq_iff)
  have est: "estimateGas (demo_net g 7 demo_sent) r = Inr g" for g r
    by (simp add: demo_defs)
  show ?thesis
    using prepare_gasLimit_value [OF ok [of 50000] none]
      prepare_gasLimit_value [OF ok [of 40000] none]
    by (simp add: est mult prepare_fresh_limit gas_50000 gas_40000)
qed

section \<open>The gate is released on every path\<close>

text \<open>
  Claim C9. Started with the gate free, the execute procedure always comes to an end,
  with a receipt or with the error thrown during preparation or submission, and at
  its end the gate is free again: it was taken once, at entry, and released once, as
  the last thing the procedure did.
\<close>

theorem execute_releases_gate:
  assumes "\<not> mutex_held (mgr w)"
  shows "\<exists>r w' evs. execute n w = Some (r, w') \<and> \<not> mutex_held (mgr w')
           \<and> events w' = events w @ [MutexAcquire] @ evs @ [MutexRelease]
           \<and> MutexAcquire \<notin> set evs \<and> MutexRelease \<notin> set evs"
proof -
  define w1 where "w1 = emit MutexAcquire (set_mutex True w)"
  define body where "body = andThen (andThen (prepare n w1) (send' n)) advanceNonce"
  define w3 where "w3 = emit MutexRelease (set_mutex False (snd body))"
  have ex: "execute n w =
      Some (case fst body of None \<Rightarrow> Inr (receipt (txn w3)) | Some e \<Rightarrow> Inl e, w3)"
    unfolding execute_def Let_def w1_def body_def w3_def using assms by simp
  have "inside w1 (snd body)"
    unfolding body_def by (rule inside_body)
  then obtain evs where evs: "events (snd body) = events w1 @ evs" "quiet evs"
    by (auto simp add: inside_def)
  have "events w3 = events w @ [MutexAcquire] @ evs @ [MutexRelease]"
    using evs by (simp add: w3_def w1_def emit_def set_mutex_def)
  moreover have "\<not> mutex_held (mgr w3)"
    by (simp add: w3_def emit_def set_mutex_def)
  ultimately show ?thesis
    using ex evs(2) by (auto simp add: quiet_def)
qed

theorem execute_releases_gate_witness:
  "(\<exists>r w' evs. execute (demo_net 50000 7 demo_sent) (fresh_world None) = Some (r, w')
       \<and> mutex_held (mgr w') = False
       \<and> events w' = events (fresh_world None) @ [MutexAcquire] @ evs @ [MutexRelease]
       \<and> MutexAcquire \<notin> set evs \<and> MutexRelease \<notin> set evs)
   \<and> (\<exists>r w' evs.
         execute (demo_net 50000 7 (Inl (NetworkError ''broadcast failed''))) (fresh_world None)
           = Some (r, w')
       \<and> mutex_held (mgr w') = False
       \<and> events w' = events (fresh_world None) @ [MutexAcquire] @ evs @ [MutexRelease]
       \<and> MutexAcquire \<notin> set evs \<and> MutexRelease \<notin> set evs)"
proof -
  have free: "\<not> mutex_held (mgr (fresh_world None))"
    by (simp add: demo_defs)
  show ?thesis
    using execute_releases_gate [OF free, of "demo_net 50000 7 demo_sent"]
      execute_releases_gate [OF free, of "demo_net 50000 7 (Inl (NetworkError ''broadcast failed''))"]
    by simp
qed

section \<open>Replace before send\<close>

text \<open>
  Claim C10. On a transaction on which \<^verbatim>\<open>send\<close> has not been invoked, \<^verbatim>\<open>replace(tx)\<close>
  ends normally and sets the pending request to exactly the fields passed in \<^verbatim>\<open>tx\<close>;
  nothing else changes and the network is not called. A field the caller did not
  supply is absent afterwards, the sender address that the constructor had bound to
  the request included.
\<close>

theorem replace_before_send:
  assumes "\<not> executed (txn w)"
  shows "replace n req w = (None, w\<lparr>txn := (txn w)\<lparr>tx := req\<rparr>\<rparr>)"
  using assms by (simp add: replace_def set_tx_def)

theorem replace_before_send_witness:
  "tx_from (tx (txn (fresh_world None))) = Some ''0xSender''
   \<and> replace (demo_net 50000 7 demo_sent) demo_request (fresh_world None)
       = (None, (fresh_world None)\<lparr>txn := (txn (fresh_world None))\<lparr>tx := demo_request\<rparr>\<rparr>)
   \<and> tx_from (tx (txn (snd (replace (demo_net 50000 7 demo_sent) demo_request
                               (fresh_world None))))) = None"
  using replace_before_send [of "fresh_world None" "demo_net 50000 7 demo_sent" demo_request]
  by (simp add: demo_defs)

section \<open>The stored nonce 0 is fetched again\<close>

lemma count_queries_append: "count_queries (xs @ ys) = count_queries xs + count_queries ys"
  by (induction xs rule: count_queries.induct) simp_all

lemma prepare_blockGasLimit_queries:
  "count_queries (events (snd (prepare_blockGasLimit n w))) = count_queries (events w)"
  by (simp add: prepare_blockGasLimit_def setter_defs count_queries_append split: sum.splits)

lemma prepare_gasLimit_queries:
  "count_queries (events (snd (prepare_gasLimit n w))) = count_queries (events w)"
  by (simp add: prepare_gasLimit_def setter_defs count_queries_append split: sum.splits)

lemma prepare_gasPrice_queries:
  "count_queries (events (snd (prepare_gasPrice n w))) = count_queries (events w)"
  by (simp add: prepare_gasPrice_def setter_defs count_queries_append split: sum.splits)

lemma prepare_chainId_queries:
  "count_queries (events (snd (prepare_chainId n w))) = count_queries (events w)"
  by (simp add: prepare_chainId_def setter_defs count_queries_append split: sum.splits)

lemma first_steps_queries:
  "count_queries (events (snd (andThen (andThen (prepare_blockGasLimit n w)
      (prepare_gasLimit n)) (prepare_gasPrice n)))) = count_queries (events w)"
proof (rule andThen_frame)
  show "count_queries (events (snd (andThen (prepare_blockGasLimit n w) (prepare_gasLimit n))))
          = count_queries (events w)"
    by (rule andThen_frame) (simp_all add: prepare_blockGasLimit_queries prepare_gasLimit_queries)
qed (simp add: prepare_gasPrice_queries)

lemma prepare_nonce_reuses:
  assumes "m_nonce (mgr w) = Some k" and "k \<noteq> 0"
  shows "prepare_nonce n w = (None, assign_nonce w)"
  using assms by (simp add: prepare_nonce_def falsy_def)

lemma prepare_nonce_fetches:
  assumes "falsy (m_nonce (mgr w))" and "getTransactionCount n (address (mgr w)) = Inr c"
  shows "prepare_nonce n w =
           (None, assign_nonce (set_m_nonce (Some c)
                    (emit (GetTransactionCount (address (mgr w))) w)))"
  using assms by (simp add: prepare_nonce_def)

text \<open>
  With a stored nonce other than 0, the preparation makes no transaction-count query,
  keeps the stored nonce and, when it succeeds, has assigned it to the request.
\<close>

lemma prepare_reuses_nonce:
  assumes "m_nonce (mgr w) = Some k" and "k \<noteq> 0"
  shows "count_queries (events (snd (prepare n w))) = count_queries (events w)"
    and "m_nonce (mgr (snd (prepare n w))) = Some k"
    and "fst (prepare n w) = None \<Longrightarrow> nonce (tx (txn (snd (prepare n w)))) = Some k"
proof -
  define A where
    "A = andThen (andThen (prepare_blockGasLimit n w) (prepare_gasLimit n)) (prepare_gasPrice n)"
  have A: "m_nonce (mgr (snd A)) = Some k" "count_queries (events (snd A)) = count_queries (events w)"
    unfolding A_def by (simp_all add: first_steps_m_nonce first_steps_queries assms)
  have p: "prepare n w = andThen (andThen A (prepare_nonce n)) (prepare_chainId n)"
    by (simp add: prepare_def A_def)
  have pn: "prepare_nonce n (snd A) = (None, assign_nonce (snd A))"
    using A(1) assms(2) by (rule prepare_nonce_reuses)
  have all: "count_queries (events (snd (prepare n w))) = count_queries (events w)
      \<and> m_nonce (mgr (snd (prepare n w))) = Some k
      \<and> (fst (prepare n w) = None \<longrightarrow> nonce (tx (txn (snd (prepare n w)))) = Some k)"
  proof (cases "fst A")
    case (Some e)
    then have "prepare n w = A"
      by (simp add: p andThen_Some)
    then show ?thesis
      using Some by (simp add: A)
  next
    case None
    then have "prepare n w = prepare_chainId n (assign_nonce (snd A))"
      by (simp add: p andThen_None pn)
    then show ?thesis
      by (simp add: prepare_chainId_queries prepare_chainId_frame A assign_nonce_def set_tx_def)
  qed
  from all show "count_queries (events (snd (prepare n w))) = count_queries (events w)"
    and "m_nonce (mgr (snd (prepare n w))) = Some k"
    and "fst (prepare n w) = None \<Longrightarrow> nonce (tx (txn (snd (prepare n w)))) = Some k"
    by simp_all
qed

text \<open>
  With no stored nonce, a preparation that succeeds has queried the transaction count
  once, stored the answer and assigned it to the request.
\<close>

lemma prepare_fetches_nonce_once:
  assumes "m_nonce (mgr w) = None" and "prepare n w = (None, w')"
  shows "\<exists>c. getTransactionCount n (address (mgr w)) = Inr c
           \<and> m_nonce (mgr w') = Some c \<and> nonce (tx (txn w')) = Some c
           \<and> count_queries (events w') = Suc (count_queries (events w))"
proof -
  define A where
    "A = andThen (andThen (prepare_blockGasLimit n w) (prepare_gasLimit n)) (prepare_gasPrice n)"
  have A: "m_nonce (mgr (snd A)) = None" "address (mgr (snd A)) = address (mgr w)"
    "count_queries (events (snd A)) = count_queries (events w)"
    unfolding A_def
    by (simp_all add: first_steps_m_nonce first_steps_address first_steps_queries assms)
  have p: "prepare n w = andThen (andThen A (prepare_nonce n)) (prepare_chainId n)"
    by (simp add: prepare_def A_def)
  from assms(2) obtain w4 where
    s4: "andThen A (prepare_nonce n) = (None, w4)" and s5: "prepare_chainId n w4 = (None, w')"
    unfolding p by (blast dest: andThen_NoneD)
  from s4 have s4': "prepare_nonce n (snd A) = (None, w4)"
    by (auto dest: andThen_NoneD)
  then obtain c where c: "getTransactionCount n (address (mgr (snd A))) = Inr c"
    and w4: "w4 = assign_nonce (set_m_nonce (Some c)
                    (emit (GetTransactionCount (address (mgr (snd A)))) (snd A)))"
    using A(1) by (auto simp add: prepare_nonce_def falsy_def split: sum.splits)
  have "m_nonce (mgr w4) = Some c" "nonce (tx (txn w4)) = Some c"
    "count_queries (events w4) = Suc (count_queries (events w))"
    by (simp_all add: w4 setter_defs count_queries_append A)
  moreover have "mgr w' = mgr w4" "nonce (tx (txn w')) = nonce (tx (txn w4))"
    "count_queries (events w') = count_queries (events w4)"
    using prepare_chainId_frame [of n w4] prepare_chainId_queries [of n w4] s5 by simp_all
  ultimately show ?thesis
    using c A(2) by simp
qed

text \<open>
  Claim C3, at the input where the code departs from it. A first transaction is sent
  from an account with no transactions: the preparation fetches the count 0 and stores
  it as the manager's nonce, and the broadcast fails, so the stored nonce stays 0. The
  preparation of the next transaction of that manager does not reuse the stored 0: it
  queries the transaction count again, and stores what the network now reports (5).
\<close>

theorem prepare_queries_again_at_nonce_zero:
  "m_nonce (mgr after_failed_send) = Some 0
   \<and> events (snd (prepare (demo_net 50000 5 demo_sent) (next_transaction after_failed_send)))
       = [EstimateGas (tx (txn (next_transaction after_failed_send))), GasPriceOracle,
          GetTransactionCount ''0xSender'', GetChainId]
   \<and> m_nonce (mgr (snd (prepare (demo_net 50000 5 demo_sent)
                             (next_transaction after_failed_send)))) = Some 5"
  by (simp add: after_failed_send_def next_transaction_def send_def model_defs demo_defs
      setter_defs gas_50000)

section \<open>The transactionHash event comes after the receipt\<close>

lemma send'_no_receipt:
  assumes "sendTransaction n (tx (txn w)) = Inr signedTx" and "getHash signedTx = Inr h"
    and "waitReceipt signedTx = Inl e"
  shows "fst (send' n w) = Some e"
    and "events (snd (send' n w)) = events w @ [SendTransaction (tx (txn w)), GetHash, WaitReceipt]"
    and "hashes (txn (snd (send' n w))) = hashes (txn w) @ [h]"
  using assms by (simp_all add: send'_def setter_defs Let_def)

text \<open>
  Claim C7, at the input where the code departs from it. A request is broadcast and
  the network returns the hash \<open>0xA1\<close>. When the wait for the receipt fails, the hash
  is in \<^verbatim>\<open>hashes\<close> and no \<^verbatim>\<open>transactionHash\<close> event was emitted. When the receipt arrives,
  the one \<^verbatim>\<open>transactionHash\<close> event is emitted after the wait for the receipt, not
  before it. The source announces the event as a progress event of \<^verbatim>\<open>send\<close> and logs
  \<^verbatim>\<open>Broadcasted transaction\<close> next to it.
\<close>

theorem send'_emits_after_receipt:
  "events (snd (send' (demo_net 50000 7 (Inr (demo_signed (Inl (NetworkError ''no receipt'')))))
                 (pending_world 100 10 5 1000)))
     = [SendTransaction (tx (txn (pending_world 100 10 5 1000))), GetHash, WaitReceipt]
   \<and> hashes (txn (snd (send' (demo_net 50000 7
                                 (Inr (demo_signed (Inl (NetworkError ''no receipt'')))))
                          (pending_world 100 10 5 1000))))
     = [''0xA0'', ''0xA1'']
   \<and> events (snd (send' (demo_net 50000 7 demo_sent) (pending_world 100 10 5 1000)))
     = [SendTransaction (tx (txn (pending_world 100 10 5 1000))), GetHash, WaitReceipt,
        TransactionHash ''0xA1'']"
  by (simp add: model_defs demo_defs setter_defs)

end
